theory Spec2Isabelle
  imports Complex_Main "HOL-Library.Multiset"
begin

section \<open>Strategy configuration (src/strategies/alphaBeta.ts)\<close>

text \<open>
  \<open>getAlphaBetaStrategy\<close> returns an object literal. Its numeric and boolean fields
  are modelled as records, field by field and with the literal's values; the prose
  fields (description, the recommendation texts, entryCondition, riskTolerance,
  tradingStyle) are read by the prompt generator only and are left out. JavaScript
  numbers that are written as decimal literals are modelled as reals.
\<close>

record StopLossCfg =
  low :: real
  mid :: real
  high :: real

record TrailingLevel =
  trigger :: real
  stopAt :: real

record TrailingStopCfg =
  level1 :: TrailingLevel
  level2 :: TrailingLevel
  level3 :: TrailingLevel

record TakeProfitStage =
  tp_trigger :: real
  closePercent :: real

record PartialTakeProfitCfg =
  stage1 :: TakeProfitStage
  stage2 :: TakeProfitStage
  stage3 :: TakeProfitStage

record VolatilityFactor =
  leverageFactor :: real
  positionFactor :: real

record VolatilityAdjustmentCfg =
  highVolatility :: VolatilityFactor
  normalVolatility :: VolatilityFactor
  lowVolatility :: VolatilityFactor

record StrategyParams =
  name :: string
  leverageMin :: real
  leverageMax :: real
  positionSizeMin :: real
  positionSizeMax :: real
  maxTotalMarginPercent :: real
  stopLoss :: StopLossCfg
  trailingStop :: TrailingStopCfg
  partialTakeProfit :: PartialTakeProfitCfg
  peakDrawdownProtection :: real
  volatilityAdjustment :: VolatilityAdjustmentCfg
  enableCodeLevelProtection :: bool
  allowAiOverrideProtection :: bool
  maxIdleHours :: real

definition getAlphaBetaStrategy :: "real \<Rightarrow> StrategyParams" where
  "getAlphaBetaStrategy maxLeverage =
     \<lparr> name = ''Alpha Beta'',
       leverageMin = 1,
       leverageMax = maxLeverage,
       positionSizeMin = 1,
       positionSizeMax = 30,
       maxTotalMarginPercent = 50,
       stopLoss = \<lparr> low = -5, mid = -4, high = -3.5 \<rparr>,
       trailingStop =
         \<lparr> level1 = \<lparr> trigger = 3, stopAt = 1 \<rparr>,
           level2 = \<lparr> trigger = 6, stopAt = 3 \<rparr>,
           level3 = \<lparr> trigger = 10, stopAt = 6 \<rparr> \<rparr>,
       partialTakeProfit =
         \<lparr> stage1 = \<lparr> tp_trigger = 5, closePercent = 50 \<rparr>,
           stage2 = \<lparr> tp_trigger = 10, closePercent = 30 \<rparr>,
           stage3 = \<lparr> tp_trigger = 15, closePercent = 20 \<rparr> \<rparr>,
       peakDrawdownProtection = 50,
       volatilityAdjustment =
         \<lparr> highVolatility = \<lparr> leverageFactor = 1.0, positionFactor = 1.0 \<rparr>,
           normalVolatility = \<lparr> leverageFactor = 1.0, positionFactor = 1.0 \<rparr>,
           lowVolatility = \<lparr> leverageFactor = 1.0, positionFactor = 1.0 \<rparr> \<rparr>,
       enableCodeLevelProtection = True,
       allowAiOverrideProtection = True,
       maxIdleHours = 8 \<rparr>"

text \<open>
  The protection rules read the three trailing levels and the three take-profit stages
  in the order of their names: level1, level2, level3 and stage1, stage2, stage3.
\<close>

definition trailingLevels :: "StrategyParams \<Rightarrow> TrailingLevel list" where
  "trailingLevels p =
     [level1 (trailingStop p), level2 (trailingStop p), level3 (trailingStop p)]"

definition takeProfitStages :: "StrategyParams \<Rightarrow> TakeProfitStage list" where
  "takeProfitStages p =
     [stage1 (partialTakeProfit p), stage2 (partialTakeProfit p), stage3 (partialTakeProfit p)]"

fun strictlyIncreasing :: "real list \<Rightarrow> bool" where
  "strictlyIncreasing [] = True"
| "strictlyIncreasing [x] = True"
| "strictlyIncreasing (x # y # rest) = (x < y \<and> strictlyIncreasing (y # rest))"

text \<open>
  The validity of a protection configuration at load time: trailing levels strictly
  increasing in trigger, take-profit stages strictly increasing in trigger, and the
  close percents of all stages adding up to at most 100.
\<close>

definition configValid :: "StrategyParams \<Rightarrow> bool" where
  "configValid p =
     (strictlyIncreasing (map trigger (trailingLevels p)) \<and>
      strictlyIncreasing (map tp_trigger (takeProfitStages p)) \<and>
      sum_list (map closePercent (takeProfitStages p)) \<le> 100)"


section \<open>Reconciliation of exchange and database positions (checkConsistency)\<close>

text \<open>
  The comparison step of \<open>checkConsistency\<close> (its step 3) works on the two typed
  position lists that steps 1 and 2 build. Every number in them went through
  \<open>parseNumber\<close>, which returns 0 for anything that is not finite, so the numbers are
  finite and are modelled as reals (the rounding of doubles is not modelled).
\<close>

datatype Side = Long | Short

record ExchangePosition =
  ex_symbol :: string
  ex_size :: real
  ex_side :: Side
  ex_entryPrice :: real
  markPrice :: real
  ex_leverage :: real
  unrealizedPnl :: real

record DbPosition =
  db_symbol :: string
  quantity :: real
  db_entryPrice :: real
  currentPrice :: real
  db_leverage :: real
  db_side :: Side
  openedAt :: string

definition QUANTITY_EPS :: real where
  "QUANTITY_EPS = 0.0001"

text \<open>
  A JavaScript \<open>Map\<close> keeps its keys in the order of their first insertion; setting a
  key that is present replaces its value in place. \<open>new Map(entries)\<close> sets the
  entries from left to right.
\<close>

fun mapSet :: "('k \<times> 'v) list \<Rightarrow> 'k \<Rightarrow> 'v \<Rightarrow> ('k \<times> 'v) list" where
  "mapSet [] k v = [(k, v)]"
| "mapSet ((k', v') # m) k v =
     (if k' = k then (k, v) # m else (k', v') # mapSet m k v)"

definition newMap :: "('k \<times> 'v) list \<Rightarrow> ('k \<times> 'v) list" where
  "newMap entries = foldl (\<lambda>m (k, v). mapSet m k v) [] entries"

definition mapGet :: "('k \<times> 'v) list \<Rightarrow> 'k \<Rightarrow> 'v option" where
  "mapGet m k = map_of m k"

definition mapHas :: "('k \<times> 'v) list \<Rightarrow> 'k \<Rightarrow> bool" where
  "mapHas m k = (mapGet m k \<noteq> None)"

text \<open>
  The source pushes one formatted string per issue; the model keeps what the string is
  built from: the database value first, the exchange value second.
\<close>

datatype Issue = SideIssue Side Side | QtyIssue real real | LeverageIssue real real

definition issuesOf :: "DbPosition \<Rightarrow> ExchangePosition \<Rightarrow> Issue list" where
  "issuesOf dbPos exchangePos =
     (let issues0 = (if db_side dbPos \<noteq> ex_side exchangePos
                     then [SideIssue (db_side dbPos) (ex_side exchangePos)] else []);
          exchangeQty = \<bar>ex_size exchangePos\<bar>;
          dbQty = \<bar>quantity dbPos\<bar>;
          issues1 = issues0 @ (if \<bar>exchangeQty - dbQty\<bar> > QUANTITY_EPS
                               then [QtyIssue dbQty exchangeQty] else []);
          issues2 = issues1 @ (if db_leverage dbPos \<noteq> 0 \<and> ex_leverage exchangePos \<noteq> 0 \<and>
                                  db_leverage dbPos \<noteq> ex_leverage exchangePos
                               then [LeverageIssue (db_leverage dbPos) (ex_leverage exchangePos)]
                               else [])
      in issues2)"

fun compareLoop ::
  "(string \<times> ExchangePosition) list \<Rightarrow> (string \<times> DbPosition) list \<Rightarrow> (string \<times> Issue list) list"
where
  "compareLoop [] dbMap = []"
| "compareLoop ((symbol, exchangePos) # rest) dbMap =
     (case mapGet dbMap symbol of
        None \<Rightarrow> compareLoop rest dbMap
      | Some dbPos \<Rightarrow>
          (let issues = issuesOf dbPos exchangePos
           in if length issues > 0 then (symbol, issues) # compareLoop rest dbMap
              else compareLoop rest dbMap))"

record Comparison =
  missingInDb :: "ExchangePosition list"
  missingOnExchange :: "DbPosition list"
  mismatches :: "(string \<times> Issue list) list"

definition compareSnapshots :: "ExchangePosition list \<Rightarrow> DbPosition list \<Rightarrow> Comparison" where
  "compareSnapshots exchangePositions dbPositions =
     (let exchangeMap = newMap (map (\<lambda>p. (ex_symbol p, p)) exchangePositions);
          dbMap = newMap (map (\<lambda>p. (db_symbol p, p)) dbPositions)
      in \<lparr> missingInDb = filter (\<lambda>p. \<not> mapHas dbMap (ex_symbol p)) exchangePositions,
           missingOnExchange = filter (\<lambda>p. \<not> mapHas exchangeMap (db_symbol p)) dbPositions,
           mismatches = compareLoop exchangeMap dbMap \<rparr>)"

text \<open>
  The three sets of symbols of a comparison.
\<close>

definition missingInLedgerSymbols :: "Comparison \<Rightarrow> string set" where
  "missingInLedgerSymbols c = ex_symbol ` set (missingInDb c)"

definition missingOnExchangeSymbols :: "Comparison \<Rightarrow> string set" where
  "missingOnExchangeSymbols c = db_symbol ` set (missingOnExchange c)"

definition mismatchedSymbols :: "Comparison \<Rightarrow> string set" where
  "mismatchedSymbols c = fst ` set (mismatches c)"

text \<open>
  The words of the specification: two positions of one symbol are mismatched when the
  side differs, or the absolute quantities differ by more than 0.0001, or the leverages
  differ while both are nonzero.
\<close>

definition differs :: "DbPosition \<Rightarrow> ExchangePosition \<Rightarrow> bool" where
  "differs d e =
     (db_side d \<noteq> ex_side e \<or>
      \<bar>\<bar>ex_size e\<bar> - \<bar>quantity d\<bar>\<bar> > 0.0001 \<or>
      (db_leverage d \<noteq> 0 \<and> ex_leverage e \<noteq> 0 \<and> db_leverage d \<noteq> ex_leverage e))"

text \<open>
  Where a snapshot lists a symbol more than once, the maps keep its last position.
\<close>

definition lastOf :: "('a \<Rightarrow> 'k) \<Rightarrow> 'a list \<Rightarrow> 'k \<Rightarrow> 'a option" where
  "lastOf key ps s = find (\<lambda>p. key p = s) (rev ps)"

definition btcExchange :: ExchangePosition where
  "btcExchange = \<lparr> ex_symbol = ''BTC'', ex_size = 5, ex_side = Long, ex_entryPrice = 100,
     markPrice = 100, ex_leverage = 3, unrealizedPnl = 0 \<rparr>"

definition btcLedger :: DbPosition where
  "btcLedger = \<lparr> db_symbol = ''BTC'', quantity = 5, db_entryPrice = 100,
     currentPrice = 100, db_leverage = 3, db_side = Short, openedAt = [] \<rparr>"

section \<open>JavaScript numbers and values\<close>

text \<open>
  The statistics script computes with numbers it parsed itself and does not guard
  against \<open>NaN\<close>, so its numbers are modelled with the values that are not finite: a
  number is \<open>NaN\<close>, minus infinity, a finite value or plus infinity. A finite double is
  taken as the real it stands for: rounding, overflow and the sign of zero are not
  modelled.
\<close>

datatype jsnum = NaN | NInf | Fin real | PInf

fun js_add :: "jsnum \<Rightarrow> jsnum \<Rightarrow> jsnum" where
  "js_add (Fin a) (Fin b) = Fin (a + b)"
| "js_add NaN y = NaN"
| "js_add x NaN = NaN"
| "js_add PInf NInf = NaN"
| "js_add NInf PInf = NaN"
| "js_add PInf y = PInf"
| "js_add x PInf = PInf"
| "js_add NInf y = NInf"
| "js_add x NInf = NInf"

fun js_abs :: "jsnum \<Rightarrow> jsnum" where
  "js_abs (Fin a) = Fin \<bar>a\<bar>"
| "js_abs NaN = NaN"
| "js_abs NInf = PInf"
| "js_abs PInf = PInf"

fun js_gt :: "jsnum \<Rightarrow> jsnum \<Rightarrow> bool" where
  "js_gt (Fin a) (Fin b) = (a > b)"
| "js_gt NaN y = False"
| "js_gt x NaN = False"
| "js_gt PInf PInf = False"
| "js_gt PInf y = True"
| "js_gt x PInf = False"
| "js_gt NInf y = False"
| "js_gt x NInf = True"

definition js_lt :: "jsnum \<Rightarrow> jsnum \<Rightarrow> bool" where
  "js_lt x y = js_gt y x"

fun js_mul :: "jsnum \<Rightarrow> jsnum \<Rightarrow> jsnum" where
  "js_mul (Fin a) (Fin b) = Fin (a * b)"
| "js_mul NaN y = NaN"
| "js_mul x NaN = NaN"
| "js_mul PInf (Fin b) = (if b > 0 then PInf else if b < 0 then NInf else NaN)"
| "js_mul NInf (Fin b) = (if b > 0 then NInf else if b < 0 then PInf else NaN)"
| "js_mul (Fin a) PInf = (if a > 0 then PInf else if a < 0 then NInf else NaN)"
| "js_mul (Fin a) NInf = (if a > 0 then NInf else if a < 0 then PInf else NaN)"
| "js_mul PInf PInf = PInf"
| "js_mul NInf NInf = PInf"
| "js_mul PInf NInf = NInf"
| "js_mul NInf PInf = NInf"

fun js_div :: "jsnum \<Rightarrow> jsnum \<Rightarrow> jsnum" where
  "js_div (Fin a) (Fin b) =
     (if b \<noteq> 0 then Fin (a / b) else if a > 0 then PInf else if a < 0 then NInf else NaN)"
| "js_div NaN y = NaN"
| "js_div x NaN = NaN"
| "js_div (Fin a) y = Fin 0"
| "js_div PInf (Fin b) = (if b \<ge> 0 then PInf else NInf)"
| "js_div NInf (Fin b) = (if b \<ge> 0 then NInf else PInf)"
| "js_div x y = NaN"

fun js_neg :: "jsnum \<Rightarrow> jsnum" where
  "js_neg (Fin a) = Fin (- a)"
| "js_neg NaN = NaN"
| "js_neg NInf = PInf"
| "js_neg PInf = NInf"

definition js_sub :: "jsnum \<Rightarrow> jsnum \<Rightarrow> jsnum" where
  "js_sub x y = js_add x (js_neg y)"

text \<open>A counter (a number that starts at 0 and is only incremented) is a natural number.\<close>

definition num :: "nat \<Rightarrow> jsnum" where
  "num n = Fin (real n)"

text \<open>
  The value of a column of a database row: \<open>null\<close>, \<open>undefined\<close> (the column is
  missing), a number or a string.
\<close>

datatype jsval = JNull | JUndefined | JNumber jsnum | JString string

fun truthy :: "jsval \<Rightarrow> bool" where
  "truthy JNull = False"
| "truthy JUndefined = False"
| "truthy (JNumber n) = (n \<noteq> NaN \<and> n \<noteq> Fin 0)"
| "truthy (JString s) = (s \<noteq> [])"

text \<open>\<open>a || b\<close>\<close>

definition js_or :: "jsval \<Rightarrow> jsval \<Rightarrow> jsval" where
  "js_or a b = (if truthy a then a else b)"

subsection \<open>Number.parseFloat\<close>

text \<open>
  \<open>parseFloat\<close> is a built-in of the language. It turns its argument into a string,
  skips leading white space and reads the longest prefix that is a decimal literal: an
  optional sign, then \<open>Infinity\<close> or digits with an optional fraction and an optional
  exponent. Where no such prefix exists the result is \<open>NaN\<close>. A number turned into a
  string and read back is the number itself.
\<close>

definition digitValue :: "char \<Rightarrow> nat option" where
  "digitValue c =
     map_of [(CHR ''0'', 0), (CHR ''1'', 1), (CHR ''2'', 2), (CHR ''3'', 3), (CHR ''4'', 4),
             (CHR ''5'', 5), (CHR ''6'', 6), (CHR ''7'', 7), (CHR ''8'', 8), (CHR ''9'', 9)] c"

definition isDigit :: "char \<Rightarrow> bool" where
  "isDigit c = (digitValue c \<noteq> None)"

definition isWhiteSpace :: "char \<Rightarrow> bool" where
  "isWhiteSpace c = (c \<in> set [CHR 0x09, CHR 0x0A, CHR 0x0B, CHR 0x0C, CHR 0x0D, CHR 0x20])"

definition digitsValue :: "string \<Rightarrow> nat" where
  "digitsValue ds = foldl (\<lambda>acc c. 10 * acc + (case digitValue c of Some d \<Rightarrow> d | None \<Rightarrow> 0)) 0 ds"

definition exponentOf :: "string \<Rightarrow> int" where
  "exponentOf r =
     (case r of
        [] \<Rightarrow> 0
      | c # r1 \<Rightarrow>
          if c = CHR ''e'' \<or> c = CHR ''E'' then
            (let neg = (case r1 of [] \<Rightarrow> False | d # _ \<Rightarrow> d = CHR ''-'');
                 r2 = (case r1 of [] \<Rightarrow> []
                       | d # r' \<Rightarrow> if d = CHR ''-'' \<or> d = CHR ''+'' then r' else r1);
                 ds = takeWhile isDigit r2
             in if ds = [] then 0
                else if neg then - int (digitsValue ds) else int (digitsValue ds))
          else 0)"

definition parseFloatStr :: "string \<Rightarrow> jsnum" where
  "parseFloatStr s =
     (let t = dropWhile isWhiteSpace s;
          neg = (case t of [] \<Rightarrow> False | c # _ \<Rightarrow> c = CHR ''-'');
          u = (case t of [] \<Rightarrow> []
               | c # r \<Rightarrow> if c = CHR ''-'' \<or> c = CHR ''+'' then r else t)
      in if take 8 u = ''Infinity'' then (if neg then NInf else PInf)
         else
           (let ip = takeWhile isDigit u;
                r1 = dropWhile isDigit u;
                hasDot = (case r1 of [] \<Rightarrow> False | c # _ \<Rightarrow> c = CHR ''.'');
                fp = (if hasDot then takeWhile isDigit (tl r1) else []);
                r2 = (if hasDot then dropWhile isDigit (tl r1) else r1)
            in if ip = [] \<and> fp = [] then NaN
               else
                 (let m = real (digitsValue ip) + real (digitsValue fp) / 10 ^ length fp;
                      e = exponentOf r2;
                      v = (if e \<ge> 0 then m * 10 ^ nat e else m / 10 ^ nat (- e))
                  in Fin (if neg then - v else v))))"

fun parseFloat :: "jsval \<Rightarrow> jsnum" where
  "parseFloat (JString s) = parseFloatStr s"
| "parseFloat (JNumber n) = n"
| "parseFloat JNull = NaN"
| "parseFloat JUndefined = NaN"

section \<open>Trade statistics by symbol (analyzeTrades)\<close>

text \<open>
  \<open>analyzeTrades\<close> reads the rows of the closed trades (the query selects the rows with
  type = 'close', oldest first), computes the statistics below and prints them. The
  model takes the rows and returns what is printed as values; the formatting of the
  report and the advice derived from the values are left out.
\<close>

record TradeRow =
  t_symbol :: string
  t_side :: string
  t_pnl :: jsval
  t_fee :: jsval

record TradeStats =
  symbol :: string
  totalTrades :: nat
  winTrades :: nat
  lossTrades :: nat
  breakEvenTrades :: nat
  winRate :: jsnum
  totalPnl :: jsnum
  totalFees :: jsnum
  netPnl :: jsnum
  avgWin :: jsnum
  avgLoss :: jsnum
  profitFactor :: jsnum
  largestWin :: jsnum
  largestLoss :: jsnum
  longTrades :: nat
  shortTrades :: nat
  longWinRate :: jsnum
  shortWinRate :: jsnum

text \<open>\<open>Number.parseFloat(trade.pnl as string || "0")\<close>, and the same for the fee.\<close>

definition pnlOf :: "TradeRow \<Rightarrow> jsnum" where
  "pnlOf trade = parseFloat (js_or (t_pnl trade) (JString ''0''))"

definition feeOf :: "TradeRow \<Rightarrow> jsnum" where
  "feeOf trade = parseFloat (js_or (t_fee trade) (JString ''0''))"

definition initStats :: "string \<Rightarrow> TradeStats" where
  "initStats symb =
     \<lparr> symbol = symb, totalTrades = 0, winTrades = 0, lossTrades = 0, breakEvenTrades = 0,
       winRate = Fin 0, totalPnl = Fin 0, totalFees = Fin 0, netPnl = Fin 0, avgWin = Fin 0,
       avgLoss = Fin 0, profitFactor = Fin 0, largestWin = Fin 0, largestLoss = Fin 0,
       longTrades = 0, shortTrades = 0, longWinRate = Fin 0, shortWinRate = Fin 0 \<rparr>"

text \<open>The body of the first loop, after the entry of the symbol has been found.\<close>

definition updateStats :: "TradeStats \<Rightarrow> string \<Rightarrow> jsnum \<Rightarrow> jsnum \<Rightarrow> TradeStats" where
  "updateStats stats side pnl fee =
     (let s1 = stats\<lparr> totalTrades := totalTrades stats + 1,
                      totalPnl := js_add (totalPnl stats) pnl,
                      totalFees := js_add (totalFees stats) fee,
                      netPnl := js_add (netPnl stats) pnl \<rparr>;
          s2 = (if side = ''long'' then s1\<lparr> longTrades := longTrades s1 + 1 \<rparr>
                else if side = ''short'' then s1\<lparr> shortTrades := shortTrades s1 + 1 \<rparr>
                else s1)
      in if js_gt pnl (Fin 0.01) then
           (let s3 = s2\<lparr> winTrades := winTrades s2 + 1, avgWin := js_add (avgWin s2) pnl \<rparr>
            in if js_gt pnl (largestWin s3) then s3\<lparr> largestWin := pnl \<rparr> else s3)
         else if js_lt pnl (Fin (- 0.01)) then
           (let s3 = s2\<lparr> lossTrades := lossTrades s2 + 1,
                          avgLoss := js_add (avgLoss s2) (js_abs pnl) \<rparr>
            in if js_gt (js_abs pnl) (js_abs (largestLoss s3)) then s3\<lparr> largestLoss := pnl \<rparr>
               else s3)
         else s2\<lparr> breakEvenTrades := breakEvenTrades s2 + 1 \<rparr>)"

text \<open>
  One round of the first loop. The map holds objects, and the loop updates the object
  of the symbol in place: the entry keeps its position in the map.
\<close>

definition processTrade :: "(string \<times> TradeStats) list \<Rightarrow> TradeRow \<Rightarrow> (string \<times> TradeStats) list" where
  "processTrade symbolStats trade =
     (let symb = t_symbol trade;
          side = t_side trade;
          pnl = pnlOf trade;
          fee = feeOf trade;
          m1 = (if \<not> mapHas symbolStats symb then mapSet symbolStats symb (initStats symb)
                else symbolStats)
      in case mapGet m1 symb of
           None \<Rightarrow> m1
         | Some stats \<Rightarrow> mapSet m1 symb (updateStats stats side pnl fee))"

definition collectStats :: "TradeRow list \<Rightarrow> (string \<times> TradeStats) list" where
  "collectStats rows = foldl processTrade [] rows"

text \<open>
  The inner loop of the second loop: it goes through all rows again and counts the
  winning long and short trades of one symbol.
\<close>

fun directionalWins :: "TradeRow list \<Rightarrow> string \<Rightarrow> nat \<times> nat \<Rightarrow> nat \<times> nat" where
  "directionalWins [] symb (longWins, shortWins) = (longWins, shortWins)"
| "directionalWins (trade # rest) symb (longWins, shortWins) =
     (if t_symbol trade = symb then
        (let side = t_side trade;
             pnl = pnlOf trade
         in if js_gt pnl (Fin 0.01) then
              directionalWins rest symb
                (if side = ''long'' then longWins + 1 else longWins,
                 if side = ''short'' then shortWins + 1 else shortWins)
            else directionalWins rest symb (longWins, shortWins))
      else directionalWins rest symb (longWins, shortWins))"

text \<open>
  The script writes the expression \<open>trades > 0 ? (wins / trades) * 100 : 0\<close> out for
  every rate; the model names it.
\<close>

definition ratePercent :: "nat \<Rightarrow> nat \<Rightarrow> jsnum" where
  "ratePercent wins trades =
     (if trades > 0 then js_mul (js_div (num wins) (num trades)) (Fin 100) else Fin 0)"

text \<open>The body of the second loop.\<close>

definition finalizeStats :: "TradeRow list \<Rightarrow> TradeStats \<Rightarrow> TradeStats" where
  "finalizeStats rows stats =
     (let s1 = stats\<lparr> winRate := ratePercent (winTrades stats) (totalTrades stats) \<rparr>;
          s2 = s1\<lparr> avgWin := (if winTrades s1 > 0 then js_div (avgWin s1) (num (winTrades s1))
                               else Fin 0) \<rparr>;
          s3 = s2\<lparr> avgLoss := (if lossTrades s2 > 0 then js_div (avgLoss s2) (num (lossTrades s2))
                                else Fin 0) \<rparr>;
          s4 = s3\<lparr> profitFactor := (if js_gt (avgLoss s3) (Fin 0)
                                     then js_div (avgWin s3) (avgLoss s3) else Fin 0) \<rparr>;
          wins = directionalWins rows (symbol s4) (0, 0);
          s5 = s4\<lparr> longWinRate := ratePercent (fst wins) (longTrades s4) \<rparr>;
          s6 = s5\<lparr> shortWinRate := ratePercent (snd wins) (shortTrades s5) \<rparr>
      in s6)"

definition perSymbolStats :: "TradeRow list \<Rightarrow> (string \<times> TradeStats) list" where
  "perSymbolStats rows = map (\<lambda>(k, stats). (k, finalizeStats rows stats)) (collectStats rows)"

text \<open>
  \<open>Array.prototype.sort\<close> with the comparator \<open>(a, b) => b.netPnl - a.netPnl\<close>. The
  sort is stable; it is modelled as the insertion sort that puts an element before the
  first one it compares less than. With a comparator that is not consistent (a net pnl
  that is \<open>NaN\<close>) the language leaves the order to the implementation; the result is a
  permutation of the array in every case, and nothing proved below depends on more.
\<close>

fun insertSorted :: "('a \<Rightarrow> 'a \<Rightarrow> jsnum) \<Rightarrow> 'a \<Rightarrow> 'a list \<Rightarrow> 'a list" where
  "insertSorted cmp x [] = [x]"
| "insertSorted cmp x (y # ys) =
     (if js_lt (cmp x y) (Fin 0) then x # y # ys else y # insertSorted cmp x ys)"

definition sortWith :: "('a \<Rightarrow> 'a \<Rightarrow> jsnum) \<Rightarrow> 'a list \<Rightarrow> 'a list" where
  "sortWith cmp xs = foldl (\<lambda>acc x. insertSorted cmp x acc) [] xs"

definition sortedStats :: "TradeRow list \<Rightarrow> TradeStats list" where
  "sortedStats rows =
     sortWith (\<lambda>a b. js_sub (netPnl b) (netPnl a)) (map snd (perSymbolStats rows))"

record TotalStats =
  tot_totalTrades :: nat
  tot_winTrades :: nat
  tot_lossTrades :: nat
  tot_totalPnl :: jsnum
  tot_totalFees :: jsnum
  tot_netPnl :: jsnum
  tot_avgWin :: jsnum
  tot_avgLoss :: jsnum
  tot_largestWin :: jsnum
  tot_largestLoss :: jsnum
  tot_longTrades :: nat
  tot_shortTrades :: nat

definition initTotal :: TotalStats where
  "initTotal =
     \<lparr> tot_totalTrades = 0, tot_winTrades = 0, tot_lossTrades = 0, tot_totalPnl = Fin 0,
       tot_totalFees = Fin 0, tot_netPnl = Fin 0, tot_avgWin = Fin 0, tot_avgLoss = Fin 0,
       tot_largestWin = Fin 0, tot_largestLoss = Fin 0, tot_longTrades = 0,
       tot_shortTrades = 0 \<rparr>"

text \<open>The body of the loop that adds the statistics of the symbols up.\<close>

definition addToTotal :: "TotalStats \<Rightarrow> TradeStats \<Rightarrow> TotalStats" where
  "addToTotal totalStats stats =
     (let t1 = totalStats\<lparr> tot_totalTrades := tot_totalTrades totalStats + totalTrades stats,
                      tot_winTrades := tot_winTrades totalStats + winTrades stats,
                      tot_lossTrades := tot_lossTrades totalStats + lossTrades stats,
                      tot_totalPnl := js_add (tot_totalPnl totalStats) (totalPnl stats),
                      tot_totalFees := js_add (tot_totalFees totalStats) (totalFees stats),
                      tot_netPnl := js_add (tot_netPnl totalStats) (netPnl stats),
                      tot_longTrades := tot_longTrades totalStats + longTrades stats,
                      tot_shortTrades := tot_shortTrades totalStats + shortTrades stats \<rparr>;
          t2 = (if js_gt (largestWin stats) (tot_largestWin t1)
                then t1\<lparr> tot_largestWin := largestWin stats \<rparr> else t1)
      in if js_gt (js_abs (largestLoss stats)) (js_abs (tot_largestLoss t2))
         then t2\<lparr> tot_largestLoss := largestLoss stats \<rparr> else t2)"

text \<open>The loop that adds the winning and the losing pnl of all rows up.\<close>

definition winLossStep :: "jsnum \<times> jsnum \<Rightarrow> TradeRow \<Rightarrow> jsnum \<times> jsnum" where
  "winLossStep acc trade =
     (let pnl = pnlOf trade
      in if js_gt pnl (Fin 0.01) then (js_add (fst acc) pnl, snd acc)
         else if js_lt pnl (Fin (- 0.01)) then (fst acc, js_add (snd acc) (js_abs pnl))
         else acc)"

definition totalWinLoss :: "TradeRow list \<Rightarrow> jsnum \<times> jsnum" where
  "totalWinLoss rows = foldl winLossStep (Fin 0, Fin 0) rows"

record Report =
  rep_sortedStats :: "TradeStats list"
  rep_totalStats :: TotalStats
  overallWinRate :: jsnum
  overallProfitFactor :: jsnum
  rep_longWinRate :: jsnum
  rep_shortWinRate :: jsnum

definition overallStats :: "TradeRow list \<Rightarrow> Report" where
  "overallStats rows =
     (let sortedList = sortedStats rows;
          t0 = foldl addToTotal initTotal sortedList;
          wl = totalWinLoss rows;
          t1 = t0\<lparr> tot_avgWin := (if tot_winTrades t0 > 0
                                   then js_div (fst wl) (num (tot_winTrades t0)) else Fin 0) \<rparr>;
          t2 = t1\<lparr> tot_avgLoss := (if tot_lossTrades t1 > 0
                                    then js_div (snd wl) (num (tot_lossTrades t1)) else Fin 0) \<rparr>
      in \<lparr> rep_sortedStats = sortedList,
           rep_totalStats = t2,
           overallWinRate = ratePercent (tot_winTrades t2) (tot_totalTrades t2),
           overallProfitFactor = (if js_gt (tot_avgLoss t2) (Fin 0)
                                  then js_div (tot_avgWin t2) (tot_avgLoss t2) else Fin 0),
           rep_longWinRate =
             (if tot_longTrades t2 > 0
              then js_mul (js_div (foldl (\<lambda>acc s. js_add acc
                       (js_div (js_mul (longWinRate s) (num (longTrades s))) (Fin 100)))
                     (Fin 0) sortedList) (num (tot_longTrades t2))) (Fin 100)
              else Fin 0),
           rep_shortWinRate =
             (if tot_shortTrades t2 > 0
              then js_mul (js_div (foldl (\<lambda>acc s. js_add acc
                       (js_div (js_mul (shortWinRate s) (num (shortTrades s))) (Fin 100)))
                     (Fin 0) sortedList) (num (tot_shortTrades t2))) (Fin 100)
              else Fin 0) \<rparr>)"

text \<open>With no rows the script prints that nothing was found and returns.\<close>

definition analyzeTrades :: "TradeRow list \<Rightarrow> Report option" where
  "analyzeTrades rows = (if rows = [] then None else Some (overallStats rows))"

text \<open>
  The rows that the loops of one run read, in the order in which they read them: the
  first loop reads every row; for every symbol of the map, the inner loop of the second
  loop reads every row again; the loop of the overall averages reads every row once
  more.
\<close>

definition rowsExamined :: "TradeRow list \<Rightarrow> TradeRow list" where
  "rowsExamined rows =
     (if rows = [] then []
      else rows @ concat (map (\<lambda>entry. rows) (collectStats rows)) @ rows)"

subsection \<open>The words of the specification\<close>

definition isWin :: "TradeRow \<Rightarrow> bool" where
  "isWin t = js_gt (pnlOf t) (Fin 0.01)"

definition isLoss :: "TradeRow \<Rightarrow> bool" where
  "isLoss t = js_lt (pnlOf t) (Fin (- 0.01))"

definition isBreakEven :: "TradeRow \<Rightarrow> bool" where
  "isBreakEven t = (\<not> isWin t \<and> \<not> isLoss t)"

definition tradesOf :: "TradeRow list \<Rightarrow> string \<Rightarrow> TradeRow list" where
  "tradesOf rows symb = filter (\<lambda>t. t_symbol t = symb) rows"

text \<open>The sum as the script builds it: from 0, adding from left to right.\<close>

definition jsSum :: "jsnum list \<Rightarrow> jsnum" where
  "jsSum xs = foldl js_add (Fin 0) xs"

definition average :: "jsnum list \<Rightarrow> jsnum" where
  "average xs = (if length xs > 0 then js_div (jsSum xs) (num (length xs)) else Fin 0)"

text \<open>
  The single-pass reference aggregation keyed by symbol and side: one pass over the
  rows that keeps, for every pair of a symbol and a side, the number of trades and the
  number of winning trades.
\<close>

definition referenceStep ::
  "((string \<times> string) \<times> (nat \<times> nat)) list \<Rightarrow> TradeRow \<Rightarrow> ((string \<times> string) \<times> (nat \<times> nat)) list"
where
  "referenceStep m t =
     (let key = (t_symbol t, t_side t);
          old = (case mapGet m key of None \<Rightarrow> (0, 0) | Some c \<Rightarrow> c)
      in mapSet m key (fst old + 1, if isWin t then snd old + 1 else snd old))"

definition singlePass :: "TradeRow list \<Rightarrow> ((string \<times> string) \<times> (nat \<times> nat)) list" where
  "singlePass rows = foldl referenceStep [] rows"

definition referenceTrades :: "TradeRow list \<Rightarrow> string \<Rightarrow> string \<Rightarrow> nat" where
  "referenceTrades rows symb side =
     (case mapGet (singlePass rows) (symb, side) of None \<Rightarrow> 0 | Some c \<Rightarrow> fst c)"

definition referenceWinRate :: "TradeRow list \<Rightarrow> string \<Rightarrow> string \<Rightarrow> jsnum" where
  "referenceWinRate rows symb side =
     (case mapGet (singlePass rows) (symb, side) of
        None \<Rightarrow> Fin 0
      | Some c \<Rightarrow> ratePercent (snd c) (fst c))"

text \<open>
  The body of the first loop applied to a list of trades in order, starting from given
  statistics: what the first loop does to the entry of one symbol.
\<close>

definition applyTrades :: "TradeStats \<Rightarrow> TradeRow list \<Rightarrow> TradeStats" where
  "applyTrades stats ts = foldl (\<lambda>st t. updateStats st (t_side t) (pnlOf t) (feeOf t)) stats ts"

definition exampleRows :: "TradeRow list" where
  "exampleRows =
     [\<lparr> t_symbol = ''BTC'', t_side = ''long'', t_pnl = JNumber (Fin 5), t_fee = JString ''0.1'' \<rparr>,
      \<lparr> t_symbol = ''ETH'', t_side = ''short'', t_pnl = JNumber (Fin (- 2)), t_fee = JNull \<rparr>,
      \<lparr> t_symbol = ''BTC'', t_side = ''long'', t_pnl = JNumber (Fin 0.005), t_fee = JNull \<rparr>,
      \<lparr> t_symbol = ''BTC'', t_side = ''short'', t_pnl = JNumber (Fin (- 1)), t_fee = JNull \<rparr>]"

text \<open>
  The statistics are computed in a single pass when every row is read exactly once.
\<close>

definition examinedOnce :: "TradeRow list \<Rightarrow> bool" where
  "examinedOnce rows = (rowsExamined rows = rows)"

text \<open>
  Two closed trades of one symbol: a win of 5, and a trade whose pnl column holds a text
  that is not a number.
\<close>

definition textPnlRows :: "TradeRow list" where
  "textPnlRows =
     [\<lparr> t_symbol = ''BTC'', t_side = ''long'', t_pnl = JNumber (Fin 5), t_fee = JNull \<rparr>,
      \<lparr> t_symbol = ''BTC'', t_side = ''long'', t_pnl = JString ''abc'', t_fee = JNull \<rparr>]"

section \<open>The effects of checkConsistency\<close>

text \<open>
  \<open>checkConsistency\<close> talks to three things outside of it: the database client, the
  exchange client and the console. The model passes a world that holds the database
  (the positions table and the trades table), the state of the exchange, what has been
  printed, and the sequence of the calls made to the two clients. The two clients are
  parameters: the database client runs the text of an SQL statement on the database,
  the exchange client retrieves the positions; each returns its result (none when the
  call throws) and the state it leaves behind. Creating the exchange client is part of
  the retrieval: when either throws, the retrieval has no result. The formatting of the
  printed lines is left out: the console holds what the lines are built from.
\<close>

type_synonym Row = "string \<Rightarrow> jsval"

record Database =
  positionsTable :: "Row list"
  tradesTable :: "Row list"

datatype Call = CallGetPositions | CallExecute string | CallClose

datatype Output =
    OutHeader
  | OutExchangePositions "ExchangePosition list"
  | OutDbPositions "DbPosition list"
  | OutSummary Comparison
  | OutRecentTrades "Row list"
  | OutOpenTrades "Row list"
  | OutCloseTrades "Row list"
  | OutDone
  | OutError

record 'ex World =
  database :: Database
  exchange :: 'ex
  console :: "Output list"
  calls :: "Call list"
  dbClosed :: bool

record 'ex Clients =
  execute :: "string \<Rightarrow> Database \<Rightarrow> Row list option \<times> Database"
  getPositions :: "'ex \<Rightarrow> Row list option \<times> 'ex"
  numberToString :: "jsnum \<Rightarrow> string"

subsection \<open>Reading the rows\<close>

text \<open>\<open>String(value)\<close>; the text of a number is the language's, a parameter here.\<close>

fun js_toString :: "(jsnum \<Rightarrow> string) \<Rightarrow> jsval \<Rightarrow> string" where
  "js_toString n2s (JString s) = s"
| "js_toString n2s (JNumber n) = n2s n"
| "js_toString n2s JNull = ''null''"
| "js_toString n2s JUndefined = ''undefined''"

definition nullish :: "jsval \<Rightarrow> bool" where
  "nullish v = (v = JNull \<or> v = JUndefined)"

text \<open>
  \<open>parseNumber\<close>: \<open>Number.parseFloat(String(value ?? "0"))\<close>, and 0 in place of a
  result that is not finite.
\<close>

definition parseNumber :: "jsval \<Rightarrow> real" where
  "parseNumber v =
     (case parseFloat (if nullish v then JString ''0'' else v) of
        Fin r \<Rightarrow> r
      | _ \<Rightarrow> 0)"

text \<open>\<open>Math.trunc\<close>\<close>

definition js_trunc :: "real \<Rightarrow> real" where
  "js_trunc r = (if r \<ge> 0 then of_int \<lfloor>r\<rfloor> else of_int \<lceil>r\<rceil>)"

text \<open>\<open>s.replace(pat, rep)\<close> with a string pattern: the first occurrence is replaced.\<close>

fun replaceFirst :: "string \<Rightarrow> string \<Rightarrow> string \<Rightarrow> string" where
  "replaceFirst pat rep [] = (if pat = [] then rep else [])"
| "replaceFirst pat rep (c # s) =
     (if take (length pat) (c # s) = pat then rep @ drop (length pat) (c # s)
      else c # replaceFirst pat rep s)"

definition toExchangePosition :: "(jsnum \<Rightarrow> string) \<Rightarrow> Row \<Rightarrow> ExchangePosition option" where
  "toExchangePosition n2s pos =
     (let sz = parseNumber (pos ''size'')
      in if sz = 0 then None
         else
           (let contract = js_toString n2s (js_or (pos ''contract'') (JString []));
                symb = replaceFirst ''_USDT'' [] contract
            in if symb = [] then None
               else Some \<lparr> ex_symbol = symb,
                           ex_size = sz,
                           ex_side = (if sz > 0 then Long else Short),
                           ex_entryPrice = parseNumber (pos ''entryPrice''),
                           markPrice = parseNumber (pos ''markPrice''),
                           ex_leverage = js_trunc (parseNumber (pos ''leverage'')),
                           unrealizedPnl = parseNumber (pos ''unrealisedPnl'') \<rparr>))"

definition toDbPosition :: "(jsnum \<Rightarrow> string) \<Rightarrow> Row \<Rightarrow> DbPosition" where
  "toDbPosition n2s row =
     \<lparr> db_symbol = js_toString n2s (row ''symbol''),
       quantity = parseNumber (row ''quantity''),
       db_entryPrice = parseNumber (row ''entry_price''),
       currentPrice = parseNumber (row ''current_price''),
       db_leverage = js_trunc (parseNumber (row ''leverage'')),
       db_side = (if row ''side'' = JString ''short'' then Short else Long),
       openedAt = js_toString n2s (js_or (row ''opened_at'') (JString [])) \<rparr>"

subsection \<open>The calls\<close>

definition logOut :: "Output \<Rightarrow> 'ex World \<Rightarrow> 'ex World" where
  "logOut out w = w\<lparr> console := console w @ [out] \<rparr>"

definition callGetPositions :: "'ex Clients \<Rightarrow> 'ex World \<Rightarrow> Row list option \<times> 'ex World" where
  "callGetPositions c w =
     (let r = getPositions c (exchange w)
      in (fst r, w\<lparr> exchange := snd r, calls := calls w @ [CallGetPositions] \<rparr>))"

definition callExecute :: "'ex Clients \<Rightarrow> string \<Rightarrow> 'ex World \<Rightarrow> Row list option \<times> 'ex World" where
  "callExecute c sql w =
     (let r = execute c sql (database w)
      in (fst r, w\<lparr> database := snd r, calls := calls w @ [CallExecute sql] \<rparr>))"

definition callClose :: "'ex World \<Rightarrow> 'ex World" where
  "callClose w = w\<lparr> dbClosed := True, calls := calls w @ [CallClose] \<rparr>"

definition sqlPositions :: string where
  "sqlPositions =
     ''SELECT symbol, quantity, entry_price, current_price, leverage, side, opened_at FROM positions''"

definition sqlRecentTrades :: string where
  "sqlRecentTrades =
     ''SELECT order_id, symbol, side, type, price, quantity, leverage, pnl, fee, timestamp, status FROM trades ORDER BY timestamp DESC LIMIT 10''"

definition sqlOpenTrades :: string where
  "sqlOpenTrades =
     ''SELECT order_id, symbol, side, price, quantity, leverage, timestamp, status FROM trades WHERE type = 'open' ORDER BY timestamp DESC LIMIT 5''"

definition sqlCloseTrades :: string where
  "sqlCloseTrades =
     ''SELECT order_id, symbol, side, price, quantity, leverage, pnl, fee, timestamp, status FROM trades WHERE type = 'close' ORDER BY timestamp DESC LIMIT 5''"

text \<open>
  The body of the \<open>try\<close> block. A call that throws ends it in the \<open>catch\<close> block, which
  prints the error.
\<close>

definition tryBlock :: "'ex Clients \<Rightarrow> 'ex World \<Rightarrow> 'ex World" where
  "tryBlock c w0 =
     (case callGetPositions c w0 of
        (None, w1) \<Rightarrow> logOut OutError w1
      | (Some rawPositions, w1) \<Rightarrow>
          (let exchangePositions = List.map_filter (toExchangePosition (numberToString c)) rawPositions;
               w2 = logOut (OutExchangePositions exchangePositions) w1
           in case callExecute c sqlPositions w2 of
                (None, w3) \<Rightarrow> logOut OutError w3
              | (Some rows, w3) \<Rightarrow>
                  (let dbPositions = map (toDbPosition (numberToString c)) rows;
                       w4 = logOut (OutDbPositions dbPositions) w3;
                       w5 = logOut (OutSummary (compareSnapshots exchangePositions dbPositions)) w4
                   in case callExecute c sqlRecentTrades w5 of
                        (None, w6) \<Rightarrow> logOut OutError w6
                      | (Some recentTrades, w6) \<Rightarrow>
                          (let w7 = logOut (OutRecentTrades recentTrades) w6
                           in case callExecute c sqlOpenTrades w7 of
                                (None, w8) \<Rightarrow> logOut OutError w8
                              | (Some openTrades, w8) \<Rightarrow>
                                  (let w9 = logOut (OutOpenTrades openTrades) w8
                                   in case callExecute c sqlCloseTrades w9 of
                                        (None, w10) \<Rightarrow> logOut OutError w10
                                      | (Some closeTrades, w10) \<Rightarrow>
                                          logOut OutDone
                                            (logOut (OutCloseTrades closeTrades) w10))))))"

text \<open>The header is printed first; the \<open>finally\<close> block closes the database client.\<close>

definition checkConsistency :: "'ex Clients \<Rightarrow> 'ex World \<Rightarrow> 'ex World" where
  "checkConsistency c w = callClose (tryBlock c (logOut OutHeader w))"

subsection \<open>Reads\<close>

definition isSelect :: "string \<Rightarrow> bool" where
  "isSelect sql = (take 6 sql = ''SELECT'')"

fun isReadCall :: "Call \<Rightarrow> bool" where
  "isReadCall CallGetPositions = True"
| "isReadCall (CallExecute sql) = isSelect sql"
| "isReadCall CallClose = True"

text \<open>
  What is taken for granted of the two clients: a SELECT statement leaves the database
  as it is, and the retrieval of the positions leaves the exchange as it is. Nothing is
  taken for granted of any other statement.
\<close>

definition readsAreReads :: "'ex Clients \<Rightarrow> bool" where
  "readsAreReads c =
     ((\<forall>sql db. isSelect sql \<longrightarrow> snd (execute c sql db) = db) \<and>
      (\<forall>ex. snd (getPositions c ex) = ex))"

text \<open>
  Example clients over an exchange that holds its raw positions: a SELECT returns the
  rows of the table it names, every other statement empties both tables.
\<close>

definition exampleClients :: "(Row list) Clients" where
  "exampleClients =
     \<lparr> execute = (\<lambda>sql db.
         if isSelect sql
         then (Some (if sql = sqlPositions then positionsTable db else tradesTable db), db)
         else (Some [], \<lparr> positionsTable = [], tradesTable = [] \<rparr>)),
       getPositions = (\<lambda>ex. (Some ex, ex)),
       numberToString = (\<lambda>n. ''0'') \<rparr>"

definition exampleWorld :: "(Row list) World" where
  "exampleWorld =
     \<lparr> database =
         \<lparr> positionsTable =
             [(\<lambda>col. JUndefined)(''symbol'' := JString ''BTC'', ''quantity'' := JNumber (Fin 5),
                ''side'' := JString ''short'', ''leverage'' := JNumber (Fin 3))],
           tradesTable = [] \<rparr>,
       exchange =
         [(\<lambda>col. JUndefined)(''contract'' := JString ''BTC_USDT'', ''size'' := JString ''5'',
            ''leverage'' := JString ''3'')],
       console = [],
       calls = [],
       dbClosed = False \<rparr>"

text \<open>
  A run from \<open>w\<close> to \<open>w'\<close> only reads: the calls it adds are reads, it only adds to the
  console, and with clients whose reads are reads it leaves the database and the
  exchange as they were.
\<close>

definition onlyReads :: "'ex Clients \<Rightarrow> 'ex World \<Rightarrow> 'ex World \<Rightarrow> bool" where
  "onlyReads c w w' =
     ((\<exists>cs. calls w' = calls w @ cs \<and> list_all isReadCall cs) \<and>
      (\<exists>out. console w' = console w @ out) \<and>
      (readsAreReads c \<longrightarrow> database w' = database w \<and> exchange w' = exchange w))"

section \<open>The protection engine\<close>

text \<open>
  The sources hold the configuration of the protection rules and not the engine that
  evaluates them. The engine is modelled from the specification (its sections 3 and
  4.1); the configuration it reads is the one of the code, \<open>StrategyParams\<close>.
\<close>

text \<open>
  Modelled from the spec: the Position of the data model. A stage is identified by its
  trigger percent. The generation counter and the action-pending mark are those of the
  concurrency model and of the executor.
\<close>

record Position =
  p_symbol :: string
  p_side :: Side
  p_quantity :: real
  p_entryPrice :: real
  p_currentPrice :: real
  p_leverage :: int
  p_openedAt :: real
  peakPnlPercent :: real
  trailingFloorPercent :: "real option"
  completedStages :: "real set"
  generation :: nat
  actionPending :: bool

text \<open>Modelled from the spec: the actions of the contract of \<open>evaluate\<close>.\<close>

datatype Action =
    NoAction
  | HardStopLoss
  | TrailingStopClose
  | PeakDrawdownClose
  | PartialClose real
  | ForcedReview

text \<open>
  Modelled from the spec: step 1 of the algorithm,
  pnlPercent = (currentPrice - entryPrice) / entryPrice x leverage x (+1 for long,
  -1 for short).
\<close>

definition pnlPercent :: "Position \<Rightarrow> real \<Rightarrow> real" where
  "pnlPercent pos price =
     (price - p_entryPrice pos) / p_entryPrice pos * real_of_int (p_leverage pos) *
       (case p_side pos of Long \<Rightarrow> 1 | Short \<Rightarrow> - 1)"

text \<open>
  Modelled from the spec: the stop-loss threshold of the leverage bracket (low up to 5x,
  mid 6 to 10x, high from 11x).
\<close>

definition stopLossThreshold :: "StrategyParams \<Rightarrow> int \<Rightarrow> real" where
  "stopLossThreshold cfg lev =
     (if lev \<le> 5 then low (stopLoss cfg)
      else if lev \<le> 10 then mid (stopLoss cfg)
      else high (stopLoss cfg))"

text \<open>
  Modelled from the spec: the highest trailing level whose trigger is at most the peak,
  if there is one. Highest is by trigger.
\<close>

fun highestReached :: "TrailingLevel list \<Rightarrow> real \<Rightarrow> TrailingLevel option" where
  "highestReached [] peak = None"
| "highestReached (l # ls) peak =
     (case highestReached ls peak of
        None \<Rightarrow> (if trigger l \<le> peak then Some l else None)
      | Some h \<Rightarrow> (if trigger l \<le> peak \<and> trigger l > trigger h then Some l else Some h))"

text \<open>
  Modelled from the spec: the floor is the stopAt of the highest reached level; there is
  no floor before a level is reached.
\<close>

definition floorFor :: "StrategyParams \<Rightarrow> real \<Rightarrow> real option" where
  "floorFor cfg peak = map_option stopAt (highestReached (trailingLevels cfg) peak)"

text \<open>
  Modelled from the spec: what the idle review of step 7 reads, the number of open
  positions over all symbols and the hours since the last close.
\<close>

record IdleContext =
  openPositions :: nat
  hoursSinceLastClose :: real

text \<open>
  Modelled from the spec: \<open>evaluate\<close>, the rules in their fixed order, the first that
  matches wins. The peak of step 2 is the larger of the stored peak and the current
  pnl; the drawdown of step 5 is the fall from the peak taken relative to the peak.
\<close>

definition evaluate :: "StrategyParams \<Rightarrow> IdleContext \<Rightarrow> Position \<Rightarrow> real \<Rightarrow> Action" where
  "evaluate cfg ctx pos price =
     (let pnl = pnlPercent pos price;
          peak = max (peakPnlPercent pos) pnl
      in if pnl \<le> stopLossThreshold cfg (p_leverage pos) then HardStopLoss
         else if (case highestReached (trailingLevels cfg) peak of
                    None \<Rightarrow> False
                  | Some l \<Rightarrow> pnl \<le> stopAt l) then TrailingStopClose
         else if peak > 0 \<and> (peak - pnl) / peak * 100 \<ge> peakDrawdownProtection cfg
           then PeakDrawdownClose
         else
           (case find (\<lambda>s. tp_trigger s \<notin> completedStages pos \<and> tp_trigger s \<le> pnl)
                   (takeProfitStages cfg) of
              Some s \<Rightarrow> PartialClose (tp_trigger s)
            | None \<Rightarrow>
                if openPositions ctx = 0 \<and> hoursSinceLastClose ctx > maxIdleHours cfg
                then ForcedReview
                else NoAction))"

text \<open>
  Modelled from the spec: the floor in effect at an evaluation, the stopAt of the
  highest level whose trigger the peak of step 2 has reached. It is the value that step
  4 compares the pnl with.
\<close>

definition floorInEffect :: "StrategyParams \<Rightarrow> Position \<Rightarrow> real \<Rightarrow> real option" where
  "floorInEffect cfg pos price =
     floorFor cfg (max (peakPnlPercent pos) (pnlPercent pos price))"

text \<open>
  Modelled from the spec: the order of floors, no floor below every floor. A floor that
  is at least the one before is not looser.
\<close>

fun floorLe :: "real option \<Rightarrow> real option \<Rightarrow> bool" where
  "floorLe None y = True"
| "floorLe (Some a) None = False"
| "floorLe (Some a) (Some b) = (a \<le> b)"

fun floorsNonDecreasing :: "real option list \<Rightarrow> bool" where
  "floorsNonDecreasing [] = True"
| "floorsNonDecreasing [x] = True"
| "floorsNonDecreasing (x # y # rest) = (floorLe x y \<and> floorsNonDecreasing (y # rest))"

text \<open>
  Modelled from the spec: the stored floor is only ever tightened. Recording a floor
  keeps the stored one where the new one is looser or missing.
\<close>

fun tighten :: "real option \<Rightarrow> real option \<Rightarrow> real option" where
  "tighten None y = y"
| "tighten (Some a) None = Some a"
| "tighten (Some a) (Some b) = Some (max a b)"

text \<open>
  Modelled from the spec: the position after an evaluation at a price. The evaluation
  itself reads the position only. What is kept of it is the current price and the peak
  as the high-water mark (step 2 happens whichever rule fires); the floor is recorded by
  the executor, after an order is filled.
\<close>

definition afterEvaluation :: "Position \<Rightarrow> real \<Rightarrow> Position" where
  "afterEvaluation pos price =
     pos\<lparr> p_currentPrice := price,
          peakPnlPercent := max (peakPnlPercent pos) (pnlPercent pos price) \<rparr>"

text \<open>Modelled from the spec: the actions that close the whole position (terminal).\<close>

fun closesPosition :: "Action \<Rightarrow> bool" where
  "closesPosition HardStopLoss = True"
| "closesPosition TrailingStopClose = True"
| "closesPosition PeakDrawdownClose = True"
| "closesPosition (PartialClose s) = False"
| "closesPosition NoAction = False"
| "closesPosition ForcedReview = False"

text \<open>
  The stopAt values of the levels are monotone when a level with a higher trigger has no
  lower stopAt. The validity of a configuration asks this of the triggers only.
\<close>

definition stopAtMonotone :: "TrailingLevel list \<Rightarrow> bool" where
  "stopAtMonotone levels =
     (\<forall>l \<in> set levels. \<forall>l' \<in> set levels. trigger l \<le> trigger l' \<longrightarrow> stopAt l \<le> stopAt l')"

text \<open>
  Modelled from the spec: the price of a tick (none when it is missing) with its age,
  and the decision of the engine for one position and one tick, together with whether
  the override token is still there afterwards. A price that is missing, zero or older
  than the staleness bound skips the evaluation; with the code-level protection
  switched off the engine decides NoAction (shadow mode); an override token that is
  present and valid for the tick, where overrides are allowed, turns the decision into
  NoAction once and is consumed.
\<close>

record PriceTick =
  tickPrice :: "real option"
  tickAge :: real

definition engineDecision ::
  "StrategyParams \<Rightarrow> real \<Rightarrow> IdleContext \<Rightarrow> Position \<Rightarrow> PriceTick \<Rightarrow> bool \<Rightarrow> Action \<times> bool" where
  "engineDecision cfg stalenessBound ctx pos tick overrideToken =
     (case tickPrice tick of
        None \<Rightarrow> (NoAction, overrideToken)
      | Some price \<Rightarrow>
          if price = 0 \<or> tickAge tick > stalenessBound then (NoAction, overrideToken)
          else if \<not> enableCodeLevelProtection cfg then (NoAction, overrideToken)
          else if allowAiOverrideProtection cfg \<and> overrideToken then (NoAction, False)
          else (evaluate cfg ctx pos price, overrideToken))"

definition examplePosition :: Position where
  "examplePosition =
     \<lparr> p_symbol = ''BTC'', p_side = Long, p_quantity = 1, p_entryPrice = 100,
       p_currentPrice = 100, p_leverage = 7, p_openedAt = 0, peakPnlPercent = 0,
       trailingFloorPercent = None, completedStages = {}, generation = 0,
       actionPending = False \<rparr>"

definition exampleContext :: IdleContext where
  "exampleContext = \<lparr> openPositions = 1, hoursSinceLastClose = 0 \<rparr>"

section \<open>The action executor\<close>

text \<open>
  The executor is not in the sources either; it is modelled from the specification (its
  sections 4.2 and 5).
\<close>

text \<open>
  Modelled from the spec: the dedup key of an action, symbol + stage-or-terminal-marker
  + position generation. A partial close carries its stage, a full close the terminal
  marker; NoAction and ForcedReview are not orders and carry no marker.
\<close>

datatype Marker = Terminal | Stage real


fun markerOf :: "Action \<Rightarrow> Marker option" where
  "markerOf (PartialClose s) = Some (Stage s)"
| "markerOf HardStopLoss = Some Terminal"
| "markerOf TrailingStopClose = Some Terminal"
| "markerOf PeakDrawdownClose = Some Terminal"
| "markerOf NoAction = None"
| "markerOf ForcedReview = None"


text \<open>
  Modelled from the spec: the reduce-only market order and the trade record of a
  protective close. Of the fields of a trade record, those that the position and the
  fill determine are kept.
\<close>

record Order =
  o_symbol :: string
  o_side :: Side
  o_quantity :: real

record TradeRecord =
  tr_symbol :: string
  tr_side :: Side
  tr_price :: real
  tr_quantity :: real
  tr_leverage :: int





text \<open>
  Modelled from the spec: the size of the order, all of the quantity for a terminal
  close and closePercent of the current quantity for the partial close of a stage.
\<close>

definition orderQuantity :: "StrategyParams \<Rightarrow> Position \<Rightarrow> Action \<Rightarrow> real option" where
  "orderQuantity cfg pos a =
     (case markerOf a of
        None \<Rightarrow> None
      | Some Terminal \<Rightarrow> Some (p_quantity pos)
      | Some (Stage s) \<Rightarrow>
          (case find (\<lambda>st. tp_trigger st = s) (takeProfitStages cfg) of
             None \<Rightarrow> None
           | Some st \<Rightarrow> Some (p_quantity pos * closePercent st / 100)))"

text \<open>
  Modelled from the spec: the state of the executor, the ledger of open positions by
  symbol, the number of order submissions made, the orders that the exchange has
  filled, the trade log and the alerts.
\<close>

record Executor =
  ledger :: "string \<rightharpoonup> Position"
  submissions :: nat
  orders :: "Order list"
  trades :: "TradeRecord list"
  alerts :: "string list"

text \<open>
  Modelled from the spec: the ledger after a successful order. The quantity is reduced,
  the stage of a partial close is marked completed, the floor is recorded (tightened to
  the floor of the peak), and the generation is bumped; a position whose quantity
  reaches zero is removed.
\<close>

definition commitClose :: "StrategyParams \<Rightarrow> Position \<Rightarrow> Action \<Rightarrow> real \<Rightarrow> Position option" where
  "commitClose cfg pos a qty =
     (let remaining = p_quantity pos - qty
      in if remaining \<le> 0 then None
         else Some (pos\<lparr> p_quantity := remaining,
                         completedStages := (case a of
                                               PartialClose s \<Rightarrow> insert s (completedStages pos)
                                             | _ \<Rightarrow> completedStages pos),
                         trailingFloorPercent :=
                           tighten (trailingFloorPercent pos) (floorFor cfg (peakPnlPercent pos)),
                         generation := generation pos + 1 \<rparr>))"







section \<open>The evaluations of an open position\<close>

text \<open>
  Modelled from the spec: the sequence of evaluations of one position, one per price,
  while the position remains open. Each evaluation gives the action of \<open>evaluate\<close> and
  the position afterwards. A terminal action closes the position and ends the sequence;
  a partial close is committed as the executor commits it after a filled order, and
  ends the sequence when nothing of the position remains; any other action leaves the
  position open.
\<close>

fun evaluations ::
  "StrategyParams \<Rightarrow> IdleContext \<Rightarrow> Position \<Rightarrow> real list \<Rightarrow> (Action \<times> Position) list" where
  "evaluations cfg ctx pos [] = []"
| "evaluations cfg ctx pos (price # prices) =
     (let a = evaluate cfg ctx pos price;
          pos1 = afterEvaluation pos price
      in if closesPosition a then [(a, pos1)]
         else
           (case orderQuantity cfg pos1 a of
              None \<Rightarrow> (a, pos1) # evaluations cfg ctx pos1 prices
            | Some qty \<Rightarrow>
                (case commitClose cfg pos1 a qty of
                   None \<Rightarrow> [(a, pos1)]
                 | Some pos2 \<Rightarrow> (a, pos2) # evaluations cfg ctx pos2 prices)))"

text \<open>
  A configuration that is valid and whose stopAt values are not monotone: the levels
  (3, 5), (6, 3), (10, 6) in place of those of the strategy.
\<close>

definition looseningConfig :: StrategyParams where
  "looseningConfig =
     (getAlphaBetaStrategy 10)\<lparr> trailingStop :=
        \<lparr> level1 = \<lparr> trigger = 3, stopAt = 5 \<rparr>,
          level2 = \<lparr> trigger = 6, stopAt = 3 \<rparr>,
          level3 = \<lparr> trigger = 10, stopAt = 6 \<rparr> \<rparr> \<rparr>"

section \<open>The configuration is valid\<close>

text \<open>
  Claim C4. For every maxLeverage argument, the configuration returned by
  getAlphaBetaStrategy satisfies the load-time validity invariants: its trailing-stop
  triggers are 3, 6, 10 (strictly increasing), its take-profit triggers are 5, 10, 15
  (strictly increasing), and its close percents 50, 30, 20 add up to 100, which is at
  most 100.
\<close>

theorem getAlphaBetaStrategy_valid:
  "configValid (getAlphaBetaStrategy maxLeverage) \<and>
   map trigger (trailingLevels (getAlphaBetaStrategy maxLeverage)) = [3, 6, 10] \<and>
   map tp_trigger (takeProfitStages (getAlphaBetaStrategy maxLeverage)) = [5, 10, 15] \<and>
   map closePercent (takeProfitStages (getAlphaBetaStrategy maxLeverage)) = [50, 30, 20] \<and>
   sum_list (map closePercent (takeProfitStages (getAlphaBetaStrategy maxLeverage))) = 100"
  by (simp add: configValid_def getAlphaBetaStrategy_def trailingLevels_def
      takeProfitStages_def)


section \<open>The reconciliation partitions the symbols\<close>

subsection \<open>Facts about the map model\<close>

lemma map_of_mapSet: "map_of (mapSet m k v) = (map_of m)(k \<mapsto> v)"
  by (induction m k v rule: mapSet.induct) auto

lemma keys_mapSet: "fst ` set (mapSet m k v) = insert k (fst ` set m)"
  by (induction m k v rule: mapSet.induct) auto

lemma distinct_mapSet: "distinct (map fst m) \<Longrightarrow> distinct (map fst (mapSet m k v))"
  by (induction m k v rule: mapSet.induct) (auto simp: keys_mapSet)

lemma map_of_foldl_mapSet:
  "map_of (foldl (\<lambda>m (k, v). mapSet m k v) m es) = map_of m ++ map_of (rev es)"
proof (induction es arbitrary: m)
  case Nil
  then show ?case by simp
next
  case (Cons e es)
  obtain k v where e: "e = (k, v)" by (cases e)
  have "map_of (foldl (\<lambda>m (k, v). mapSet m k v) (mapSet m k v) es)
        = map_of (mapSet m k v) ++ map_of (rev es)"
    by (rule Cons.IH)
  also have "\<dots> = map_of m ++ map_of (rev es @ [(k, v)])"
    by (simp add: map_of_mapSet map_add_def fun_eq_iff split: option.splits)
  finally show ?case by (simp add: e)
qed

lemma keys_foldl_mapSet:
  "fst ` set (foldl (\<lambda>m (k, v). mapSet m k v) m es) = fst ` set m \<union> fst ` set es"
proof (induction es arbitrary: m)
  case Nil
  then show ?case by simp
next
  case (Cons e es)
  obtain k v where e: "e = (k, v)" by (cases e)
  show ?case using Cons.IH [of "mapSet m k v"] by (simp add: e keys_mapSet)
qed

lemma distinct_foldl_mapSet:
  "distinct (map fst m) \<Longrightarrow> distinct (map fst (foldl (\<lambda>m (k, v). mapSet m k v) m es))"
proof (induction es arbitrary: m)
  case Nil
  then show ?case by simp
next
  case (Cons e es)
  obtain k v where e: "e = (k, v)" by (cases e)
  show ?case using Cons.IH [of "mapSet m k v"] Cons.prems by (simp add: e distinct_mapSet)
qed

lemma map_of_keyed: "map_of (map (\<lambda>p. (key p, p)) ps) s = find (\<lambda>p. key p = s) ps"
  by (induction ps) auto

lemma mapGet_newMap: "mapGet (newMap (map (\<lambda>p. (key p, p)) ps)) s = lastOf key ps s"
  by (simp add: mapGet_def newMap_def map_of_foldl_mapSet lastOf_def rev_map map_of_keyed)

lemma distinct_newMap: "distinct (map fst (newMap es))"
  by (simp add: newMap_def distinct_foldl_mapSet)

lemma lastOf_None: "lastOf key ps s = None \<longleftrightarrow> s \<notin> key ` set ps"
  by (auto simp: lastOf_def find_None_iff)

lemma find_Some_set: "find P xs = Some x \<Longrightarrow> P x \<and> x \<in> set xs"
  by (induction xs) (auto split: if_splits)

lemma lastOf_Some_key: "lastOf key ps s = Some p \<Longrightarrow> key p = s \<and> p \<in> set ps"
  using find_Some_set [of "\<lambda>p. key p = s" "rev ps" p] by (simp add: lastOf_def)

lemma lastOf_distinct:
  "distinct (map key ps) \<Longrightarrow> lastOf key ps s = Some p \<longleftrightarrow> p \<in> set ps \<and> key p = s"
proof
  assume "lastOf key ps s = Some p"
  then show "p \<in> set ps \<and> key p = s" using lastOf_Some_key [of key ps s p] by simp
next
  assume d: "distinct (map key ps)" and p: "p \<in> set ps \<and> key p = s"
  then have "s \<in> key ` set ps" by auto
  then obtain q where q: "lastOf key ps s = Some q"
    using lastOf_None [of key ps s] by (cases "lastOf key ps s") auto
  then have "q \<in> set ps" "key q = s" using lastOf_Some_key [of key ps s q] by simp_all
  with d p have "q = p" by (metis distinct_map inj_onD)
  with q show "lastOf key ps s = Some p" by simp
qed

lemma mapHas_newMap: "mapHas (newMap (map (\<lambda>p. (key p, p)) ps)) s \<longleftrightarrow> s \<in> key ` set ps"
  using lastOf_None [of key ps s] by (simp add: mapHas_def mapGet_newMap)

subsection \<open>Facts about the comparison\<close>

lemma issuesOf_empty: "issuesOf d e = [] \<longleftrightarrow> \<not> differs d e"
  by (auto simp: issuesOf_def differs_def QUANTITY_EPS_def Let_def)

lemma keys_compareLoop:
  "fst ` set (compareLoop exMap dbMap) =
     {s. \<exists>e d. (s, e) \<in> set exMap \<and> mapGet dbMap s = Some d \<and> differs d e}"
proof (induction exMap dbMap rule: compareLoop.induct)
  case (1 dbMap)
  then show ?case by simp
next
  case (2 symbol exchangePos rest dbMap)
  show ?case
  proof (cases "mapGet dbMap symbol")
    case None
    with 2 show ?thesis by auto
  next
    case (Some dbPos)
    show ?thesis
    proof (cases "differs dbPos exchangePos")
      case True
      then have "issuesOf dbPos exchangePos \<noteq> []" by (simp add: issuesOf_empty)
      with 2 Some True show ?thesis by (auto simp: Let_def)
    next
      case False
      then have "issuesOf dbPos exchangePos = []" by (simp add: issuesOf_empty)
      with 2 Some False show ?thesis by (auto simp: Let_def)
    qed
  qed
qed

lemma distinct_compareLoop:
  "distinct (map fst exMap) \<Longrightarrow> distinct (map fst (compareLoop exMap dbMap))"
proof (induction exMap dbMap rule: compareLoop.induct)
  case (1 dbMap)
  then show ?case by simp
next
  case (2 symbol exchangePos rest dbMap)
  have sub: "fst ` set (compareLoop rest dbMap) \<subseteq> fst ` set rest"
    by (auto simp: keys_compareLoop intro: rev_image_eqI)
  from 2 sub show ?case by (auto simp: Let_def split: option.splits)
qed

lemma missingInLedger_eq:
  "missingInLedgerSymbols (compareSnapshots ex db) = ex_symbol ` set ex - db_symbol ` set db"
  by (auto simp: missingInLedgerSymbols_def compareSnapshots_def Let_def mapHas_newMap)

lemma missingOnExchange_eq:
  "missingOnExchangeSymbols (compareSnapshots ex db) = db_symbol ` set db - ex_symbol ` set ex"
  by (auto simp: missingOnExchangeSymbols_def compareSnapshots_def Let_def mapHas_newMap)

lemma mismatched_eq:
  "mismatchedSymbols (compareSnapshots ex db) =
     {s. \<exists>e d. lastOf ex_symbol ex s = Some e \<and> lastOf db_symbol db s = Some d \<and> differs d e}"
proof -
  let ?exMap = "newMap (map (\<lambda>p. (ex_symbol p, p)) ex)"
  have "\<And>s e. (s, e) \<in> set ?exMap \<longleftrightarrow> lastOf ex_symbol ex s = Some e"
    using map_of_eq_Some_iff [OF distinct_newMap [of "map (\<lambda>p. (ex_symbol p, p)) ex"]]
      mapGet_newMap [of ex_symbol ex]
    by (simp add: mapGet_def)
  then show ?thesis
    by (simp add: mismatchedSymbols_def compareSnapshots_def Let_def keys_compareLoop
        mapGet_newMap)
qed

lemma mismatched_subset:
  "mismatchedSymbols (compareSnapshots ex db) \<subseteq> ex_symbol ` set ex \<inter> db_symbol ` set db"
proof
  fix s
  assume "s \<in> mismatchedSymbols (compareSnapshots ex db)"
  then obtain e d where ed: "lastOf ex_symbol ex s = Some e" "lastOf db_symbol db s = Some d"
    unfolding mismatched_eq by blast
  have "ex_symbol e = s \<and> e \<in> set ex" by (rule lastOf_Some_key [OF ed(1)])
  moreover have "db_symbol d = s \<and> d \<in> set db" by (rule lastOf_Some_key [OF ed(2)])
  ultimately show "s \<in> ex_symbol ` set ex \<inter> db_symbol ` set db"
    by (metis IntI imageI)
qed

lemma mismatches_distinct: "distinct (map fst (mismatches (compareSnapshots ex db)))"
  by (simp add: compareSnapshots_def Let_def distinct_compareLoop distinct_newMap)

lemma btc_example:
  "missingInDb (compareSnapshots [btcExchange] [btcLedger]) = [] \<and>
   missingOnExchange (compareSnapshots [btcExchange] [btcLedger]) = [] \<and>
   mismatches (compareSnapshots [btcExchange] [btcLedger]) = [(''BTC'', [SideIssue Short Long])]"
  by (simp add: compareSnapshots_def newMap_def mapHas_def mapGet_def issuesOf_def
      btcExchange_def btcLedger_def QUANTITY_EPS_def Let_def)

text \<open>
  Claim C1. For every pair of snapshots, the comparison of \<open>checkConsistency\<close> gives
  three pairwise disjoint sets of symbols: missing in the ledger are exactly the symbols
  on the exchange and not in the ledger; missing on the exchange are exactly the symbols
  in the ledger and not on the exchange; mismatched are exactly the symbols in both whose
  positions differ in side, or in absolute quantity by more than 0.0001, or in leverage
  while both leverages are nonzero (where a snapshot lists a symbol twice, its last
  position is the one compared; with one position per symbol it is that position), and
  each mismatched symbol is reported once. For exchange = [BTC, 5, long] and ledger =
  [BTC, 5, short] the result is the one mismatch of BTC, on the side, and nothing
  missing.
\<close>

theorem reconciliation_partition:
  "missingInLedgerSymbols (compareSnapshots ex db) = ex_symbol ` set ex - db_symbol ` set db \<and>
   missingOnExchangeSymbols (compareSnapshots ex db) = db_symbol ` set db - ex_symbol ` set ex \<and>
   mismatchedSymbols (compareSnapshots ex db) =
     {s. \<exists>e d. lastOf ex_symbol ex s = Some e \<and> lastOf db_symbol db s = Some d \<and> differs d e} \<and>
   (distinct (map ex_symbol ex) \<and> distinct (map db_symbol db) \<longrightarrow>
      mismatchedSymbols (compareSnapshots ex db) =
        {s. \<exists>e d. e \<in> set ex \<and> d \<in> set db \<and> ex_symbol e = s \<and> db_symbol d = s \<and> differs d e}) \<and>
   missingInLedgerSymbols (compareSnapshots ex db) \<inter>
     missingOnExchangeSymbols (compareSnapshots ex db) = {} \<and>
   missingInLedgerSymbols (compareSnapshots ex db) \<inter>
     mismatchedSymbols (compareSnapshots ex db) = {} \<and>
   missingOnExchangeSymbols (compareSnapshots ex db) \<inter>
     mismatchedSymbols (compareSnapshots ex db) = {} \<and>
   distinct (map fst (mismatches (compareSnapshots ex db))) \<and>
   missingInDb (compareSnapshots [btcExchange] [btcLedger]) = [] \<and>
   missingOnExchange (compareSnapshots [btcExchange] [btcLedger]) = [] \<and>
   mismatches (compareSnapshots [btcExchange] [btcLedger]) = [(''BTC'', [SideIssue Short Long])]"
proof -
  let ?c = "compareSnapshots ex db"
  have a: "missingInLedgerSymbols ?c = ex_symbol ` set ex - db_symbol ` set db"
    by (rule missingInLedger_eq)
  have b: "missingOnExchangeSymbols ?c = db_symbol ` set db - ex_symbol ` set ex"
    by (rule missingOnExchange_eq)
  have c: "mismatchedSymbols ?c =
      {s. \<exists>e d. lastOf ex_symbol ex s = Some e \<and> lastOf db_symbol db s = Some d \<and> differs d e}"
    by (rule mismatched_eq)
  have d: "distinct (map ex_symbol ex) \<and> distinct (map db_symbol db) \<longrightarrow>
      mismatchedSymbols ?c =
        {s. \<exists>e d. e \<in> set ex \<and> d \<in> set db \<and> ex_symbol e = s \<and> db_symbol d = s \<and> differs d e}"
  proof
    assume h: "distinct (map ex_symbol ex) \<and> distinct (map db_symbol db)"
    show "mismatchedSymbols ?c =
        {s. \<exists>e d. e \<in> set ex \<and> d \<in> set db \<and> ex_symbol e = s \<and> db_symbol d = s \<and> differs d e}"
      unfolding c using h by (auto simp: lastOf_distinct)
  qed
  have e: "missingInLedgerSymbols ?c \<inter> missingOnExchangeSymbols ?c = {}"
    unfolding a b by auto
  have f: "missingInLedgerSymbols ?c \<inter> mismatchedSymbols ?c = {}"
    using mismatched_subset [of ex db] unfolding a by auto
  have g: "missingOnExchangeSymbols ?c \<inter> mismatchedSymbols ?c = {}"
    using mismatched_subset [of ex db] unfolding b by auto
  show ?thesis
    using a b c d e f g mismatches_distinct [of ex db] btc_example by simp
qed

theorem reconciliation_partition_witness:
  "distinct (map ex_symbol [btcExchange]) \<and> distinct (map db_symbol [btcLedger]) \<and>
   missingInLedgerSymbols (compareSnapshots [btcExchange] [btcLedger]) = {} \<and>
   missingOnExchangeSymbols (compareSnapshots [btcExchange] [btcLedger]) = {} \<and>
   mismatchedSymbols (compareSnapshots [btcExchange] [btcLedger]) = {''BTC''}"
proof -
  note t = reconciliation_partition [of "[btcExchange]" "[btcLedger]"]
  have sy: "ex_symbol btcExchange = ''BTC''" "db_symbol btcLedger = ''BTC''"
    by (simp_all add: btcLedger_def btcExchange_def)
  have dif: "differs btcLedger btcExchange"
    by (simp add: differs_def btcLedger_def btcExchange_def)
  have d: "distinct (map ex_symbol [btcExchange]) \<and> distinct (map db_symbol [btcLedger])"
    by simp
  have a: "missingInLedgerSymbols (compareSnapshots [btcExchange] [btcLedger]) = {}"
    using t [THEN conjunct1] sy by simp
  have b: "missingOnExchangeSymbols (compareSnapshots [btcExchange] [btcLedger]) = {}"
    using t [THEN conjunct2, THEN conjunct1] sy by simp
  have "mismatchedSymbols (compareSnapshots [btcExchange] [btcLedger]) =
      {s. \<exists>e d. e \<in> set [btcExchange] \<and> d \<in> set [btcLedger] \<and> ex_symbol e = s \<and>
          db_symbol d = s \<and> differs d e}"
    by (rule t [THEN conjunct2, THEN conjunct2, THEN conjunct2, THEN conjunct1, THEN mp, OF d])
  also have "\<dots> = {''BTC''}"
    using dif sy by auto
  finally show ?thesis using a b d by simp
qed

section \<open>The statistics of one symbol\<close>

subsection \<open>One round of the first loop\<close>

lemma updateStats_symbol [simp]: "symbol (updateStats st side pnl fee) = symbol st"
  by (simp add: updateStats_def Let_def)

lemma updateStats_totalTrades [simp]:
  "totalTrades (updateStats st side pnl fee) = totalTrades st + 1"
  by (simp add: updateStats_def Let_def)

lemma updateStats_winTrades:
  "winTrades (updateStats st side pnl fee) =
     (if js_gt pnl (Fin 0.01) then winTrades st + 1 else winTrades st)"
  by (simp add: updateStats_def Let_def)

lemma updateStats_lossTrades:
  "lossTrades (updateStats st side pnl fee) =
     (if \<not> js_gt pnl (Fin 0.01) \<and> js_lt pnl (Fin (- 0.01)) then lossTrades st + 1
      else lossTrades st)"
  by (simp add: updateStats_def Let_def)


lemma updateStats_avgWin:
  "avgWin (updateStats st side pnl fee) =
     (if js_gt pnl (Fin 0.01) then js_add (avgWin st) pnl else avgWin st)"
  by (simp add: updateStats_def Let_def)

lemma updateStats_avgLoss:
  "avgLoss (updateStats st side pnl fee) =
     (if \<not> js_gt pnl (Fin 0.01) \<and> js_lt pnl (Fin (- 0.01)) then js_add (avgLoss st) (js_abs pnl)
      else avgLoss st)"
  by (simp add: updateStats_def Let_def)

lemma updateStats_longTrades:
  "longTrades (updateStats st side pnl fee) =
     (if side = ''long'' then longTrades st + 1 else longTrades st)"
  by (simp add: updateStats_def Let_def)

lemma updateStats_shortTrades:
  "shortTrades (updateStats st side pnl fee) =
     (if side = ''short'' then shortTrades st + 1 else shortTrades st)"
  by (simp add: updateStats_def Let_def)

lemma updateStats_totalPnl [simp]:
  "totalPnl (updateStats st side pnl fee) = js_add (totalPnl st) pnl"
  by (simp add: updateStats_def Let_def)

lemma not_win_and_loss: "js_gt p (Fin 0.01) \<Longrightarrow> \<not> js_lt p (Fin (- 0.01))"
  by (cases p) (simp_all add: js_lt_def)

lemma isLoss_not_isWin: "isLoss t \<Longrightarrow> \<not> isWin t"
  using not_win_and_loss [of "pnlOf t"] by (auto simp: isWin_def isLoss_def)

subsection \<open>The trades of one symbol, in order\<close>

lemma applyTrades_Nil [simp]: "applyTrades st [] = st"
  by (simp add: applyTrades_def)

lemma applyTrades_Cons [simp]:
  "applyTrades st (t # ts) = applyTrades (updateStats st (t_side t) (pnlOf t) (feeOf t)) ts"
  by (simp add: applyTrades_def)

lemma applyTrades_snoc:
  "applyTrades st (ts @ [t]) = updateStats (applyTrades st ts) (t_side t) (pnlOf t) (feeOf t)"
  by (simp add: applyTrades_def)

lemma applyTrades_symbol [simp]: "symbol (applyTrades st ts) = symbol st"
  by (induction ts arbitrary: st) simp_all


lemma applyTrades_winTrades:
  "winTrades (applyTrades st ts) = winTrades st + length (filter isWin ts)"
  by (induction ts arbitrary: st) (simp_all add: updateStats_winTrades isWin_def)

lemma applyTrades_lossTrades:
  "lossTrades (applyTrades st ts) = lossTrades st + length (filter isLoss ts)"
proof (induction ts arbitrary: st)
  case Nil
  then show ?case by simp
next
  case (Cons t ts)
  show ?case
    using isLoss_not_isWin [of t]
    by (auto simp: Cons.IH updateStats_lossTrades isWin_def isLoss_def)
qed


lemma applyTrades_avgWin:
  "avgWin (applyTrades st ts) = foldl js_add (avgWin st) (map pnlOf (filter isWin ts))"
  by (induction ts arbitrary: st) (simp_all add: updateStats_avgWin isWin_def)

lemma applyTrades_avgLoss:
  "avgLoss (applyTrades st ts) =
     foldl js_add (avgLoss st) (map (\<lambda>t. js_abs (pnlOf t)) (filter isLoss ts))"
proof (induction ts arbitrary: st)
  case Nil
  then show ?case by simp
next
  case (Cons t ts)
  show ?case
    using isLoss_not_isWin [of t]
    by (auto simp: Cons.IH updateStats_avgLoss isWin_def isLoss_def)
qed

lemma applyTrades_longTrades:
  "longTrades (applyTrades st ts) = longTrades st + length (filter (\<lambda>t. t_side t = ''long'') ts)"
  by (induction ts arbitrary: st) (simp_all add: updateStats_longTrades)

lemma applyTrades_shortTrades:
  "shortTrades (applyTrades st ts) =
     shortTrades st + length (filter (\<lambda>t. t_side t = ''short'') ts)"
  by (induction ts arbitrary: st) (simp_all add: updateStats_shortTrades)

lemma applyTrades_totalPnl:
  "totalPnl (applyTrades st ts) = foldl js_add (totalPnl st) (map pnlOf ts)"
  by (induction ts arbitrary: st) simp_all

subsection \<open>The map of the first loop\<close>

lemma mapGet_processTrade:
  "mapGet (processTrade m t) s =
     (if t_symbol t = s
      then Some (updateStats (case mapGet m s of None \<Rightarrow> initStats s | Some st \<Rightarrow> st)
                   (t_side t) (pnlOf t) (feeOf t))
      else mapGet m s)"
  by (auto simp: processTrade_def Let_def mapHas_def mapGet_def map_of_mapSet
      split: option.splits)

lemma mapGet_foldl_processTrade:
  "mapGet (foldl processTrade m rows) s =
     (if tradesOf rows s = [] then mapGet m s
      else Some (applyTrades (case mapGet m s of None \<Rightarrow> initStats s | Some st \<Rightarrow> st)
                   (tradesOf rows s)))"
proof (induction rows arbitrary: m)
  case Nil
  then show ?case by (simp add: tradesOf_def)
next
  case (Cons t rows)
  show ?case
    by (simp add: Cons.IH mapGet_processTrade tradesOf_def)
qed

lemma mapGet_collectStats:
  "mapGet (collectStats rows) s =
     (if tradesOf rows s = [] then None
      else Some (applyTrades (initStats s) (tradesOf rows s)))"
  by (simp add: collectStats_def mapGet_foldl_processTrade) (simp add: mapGet_def)

lemma keys_processTrade: "fst ` set (processTrade m t) = insert (t_symbol t) (fst ` set m)"
  by (auto simp: processTrade_def Let_def mapHas_def mapGet_def map_of_mapSet keys_mapSet
      split: option.splits if_splits)

lemma distinct_processTrade:
  "distinct (map fst m) \<Longrightarrow> distinct (map fst (processTrade m t))"
  by (auto simp: processTrade_def Let_def distinct_mapSet split: option.splits)

lemma keys_collectStats_aux:
  "fst ` set (foldl processTrade m rows) = fst ` set m \<union> t_symbol ` set rows"
  by (induction rows arbitrary: m) (auto simp: keys_processTrade)

lemma keys_collectStats: "fst ` set (collectStats rows) = t_symbol ` set rows"
  by (simp add: collectStats_def keys_collectStats_aux)

lemma distinct_collectStats_aux:
  "distinct (map fst m) \<Longrightarrow> distinct (map fst (foldl processTrade m rows))"
  by (induction rows arbitrary: m) (simp_all add: distinct_processTrade)

lemma distinct_collectStats: "distinct (map fst (collectStats rows))"
  by (simp add: collectStats_def distinct_collectStats_aux)

lemma mapGet_perSymbolStats:
  "mapGet (perSymbolStats rows) s = map_option (finalizeStats rows) (mapGet (collectStats rows) s)"
  by (simp add: perSymbolStats_def mapGet_def map_of_map)

lemma perSymbolStats_Some:
  "mapGet (perSymbolStats rows) s = Some st \<Longrightarrow>
     tradesOf rows s \<noteq> [] \<and>
     st = finalizeStats rows (applyTrades (initStats s) (tradesOf rows s))"
  by (auto simp: mapGet_perSymbolStats mapGet_collectStats split: if_splits)

subsection \<open>The second loop\<close>

lemma finalizeStats_counts [simp]:
  "symbol (finalizeStats rows st) = symbol st"
  "totalTrades (finalizeStats rows st) = totalTrades st"
  "winTrades (finalizeStats rows st) = winTrades st"
  "lossTrades (finalizeStats rows st) = lossTrades st"
  "breakEvenTrades (finalizeStats rows st) = breakEvenTrades st"
  "longTrades (finalizeStats rows st) = longTrades st"
  "shortTrades (finalizeStats rows st) = shortTrades st"
  "totalPnl (finalizeStats rows st) = totalPnl st"
  by (simp_all add: finalizeStats_def Let_def)


lemma finalizeStats_avgWin:
  "avgWin (finalizeStats rows st) =
     (if winTrades st > 0 then js_div (avgWin st) (num (winTrades st)) else Fin 0)"
  by (simp add: finalizeStats_def Let_def)

lemma finalizeStats_avgLoss:
  "avgLoss (finalizeStats rows st) =
     (if lossTrades st > 0 then js_div (avgLoss st) (num (lossTrades st)) else Fin 0)"
  by (simp add: finalizeStats_def Let_def)

lemma finalizeStats_profitFactor:
  "profitFactor (finalizeStats rows st) =
     (if js_gt (avgLoss (finalizeStats rows st)) (Fin 0)
      then js_div (avgWin (finalizeStats rows st)) (avgLoss (finalizeStats rows st)) else Fin 0)"
  by (simp add: finalizeStats_def Let_def)

lemma initStats_fields [simp]:
  "symbol (initStats s) = s" "totalTrades (initStats s) = 0" "winTrades (initStats s) = 0"
  "lossTrades (initStats s) = 0" "breakEvenTrades (initStats s) = 0"
  "avgWin (initStats s) = Fin 0" "avgLoss (initStats s) = Fin 0"
  "longTrades (initStats s) = 0" "shortTrades (initStats s) = 0" "totalPnl (initStats s) = Fin 0"
  by (simp_all add: initStats_def)

lemma average_wins:
  "avgWin (finalizeStats rows (applyTrades (initStats s) ts)) = average (map pnlOf (filter isWin ts))"
  by (simp add: finalizeStats_avgWin applyTrades_winTrades applyTrades_avgWin average_def
      jsSum_def)

lemma average_losses:
  "avgLoss (finalizeStats rows (applyTrades (initStats s) ts)) =
     average (map (\<lambda>t. js_abs (pnlOf t)) (filter isLoss ts))"
  by (simp add: finalizeStats_avgLoss applyTrades_lossTrades applyTrades_avgLoss average_def
      jsSum_def)


subsection \<open>The example trades\<close>

lemma example_btc_trades:
  "tradesOf exampleRows ''BTC'' =
     [\<lparr> t_symbol = ''BTC'', t_side = ''long'', t_pnl = JNumber (Fin 5), t_fee = JString ''0.1'' \<rparr>,
      \<lparr> t_symbol = ''BTC'', t_side = ''long'', t_pnl = JNumber (Fin 0.005), t_fee = JNull \<rparr>,
      \<lparr> t_symbol = ''BTC'', t_side = ''short'', t_pnl = JNumber (Fin (- 1)), t_fee = JNull \<rparr>]"
  by (simp add: tradesOf_def exampleRows_def)

lemma example_btc_entry:
  "mapGet (perSymbolStats exampleRows) ''BTC'' =
     Some (finalizeStats exampleRows (applyTrades (initStats ''BTC'') (tradesOf exampleRows ''BTC'')))"
  by (simp add: mapGet_perSymbolStats mapGet_collectStats example_btc_trades)

lemma length_collectStats: "length (collectStats rows) = card (t_symbol ` set rows)"
proof -
  have "length (collectStats rows) = length (map fst (collectStats rows))" by simp
  also have "\<dots> = card (set (map fst (collectStats rows)))"
    using distinct_collectStats [of rows] by (simp only: distinct_card)
  also have "\<dots> = card (t_symbol ` set rows)"
    using keys_collectStats [of rows] by simp
  finally show ?thesis .
qed

lemma example_symbols: "t_symbol ` set exampleRows = {''BTC'', ''ETH''}"
  by (auto simp: exampleRows_def)


section \<open>The profit factor\<close>

subsection \<open>The average loss is positive when there is a loss\<close>

lemma loss_abs_positive: "js_lt p (Fin (- 0.01)) \<Longrightarrow> js_gt (js_abs p) (Fin 0)"
  by (cases p) (simp_all add: js_lt_def)

lemma js_add_positive:
  "js_gt x (Fin 0) \<or> x = Fin 0 \<Longrightarrow> js_gt y (Fin 0) \<Longrightarrow> js_gt (js_add x y) (Fin 0)"
  by (cases x; cases y) auto

lemma foldl_js_add_positive:
  "js_gt acc (Fin 0) \<Longrightarrow> list_all (\<lambda>y. js_gt y (Fin 0)) ys \<Longrightarrow>
     js_gt (foldl js_add acc ys) (Fin 0)"
  by (induction ys arbitrary: acc) (simp_all add: js_add_positive)

lemma jsSum_positive:
  "ys \<noteq> [] \<Longrightarrow> list_all (\<lambda>y. js_gt y (Fin 0)) ys \<Longrightarrow> js_gt (jsSum ys) (Fin 0)"
  by (cases ys) (simp_all add: jsSum_def foldl_js_add_positive js_add_positive)

lemma js_div_positive: "js_gt x (Fin 0) \<Longrightarrow> 0 < n \<Longrightarrow> js_gt (js_div x (num n)) (Fin 0)"
  by (cases x) (simp_all add: num_def)

lemma losses_all_positive: "list_all (\<lambda>y. js_gt y (Fin 0)) (map (\<lambda>t. js_abs (pnlOf t)) (filter isLoss ts))"
  by (induction ts) (simp_all add: isLoss_def loss_abs_positive)

lemma average_losses_positive:
  "js_gt (average (map (\<lambda>t. js_abs (pnlOf t)) (filter isLoss ts))) (Fin 0) \<longleftrightarrow>
     filter isLoss ts \<noteq> []"
proof (cases "filter isLoss ts = []")
  case True
  then show ?thesis by (simp add: average_def)
next
  case False
  then have "js_gt (jsSum (map (\<lambda>t. js_abs (pnlOf t)) (filter isLoss ts))) (Fin 0)"
    by (simp add: jsSum_positive losses_all_positive)
  with False show ?thesis by (simp add: average_def js_div_positive)
qed

subsection \<open>The totals\<close>

lemma fst_winLossStep:
  "fst (winLossStep acc t) = (if isWin t then js_add (fst acc) (pnlOf t) else fst acc)"
  by (simp add: winLossStep_def Let_def isWin_def)

lemma snd_winLossStep:
  "snd (winLossStep acc t) = (if isLoss t then js_add (snd acc) (js_abs (pnlOf t)) else snd acc)"
  using isLoss_not_isWin [of t] by (auto simp: winLossStep_def Let_def isWin_def isLoss_def)

lemma winLoss_foldl:
  "foldl winLossStep acc rows =
     (foldl js_add (fst acc) (map pnlOf (filter isWin rows)),
      foldl js_add (snd acc) (map (\<lambda>t. js_abs (pnlOf t)) (filter isLoss rows)))"
proof (induction rows arbitrary: acc)
  case Nil
  then show ?case by simp
next
  case (Cons t rows)
  show ?case
    by (simp add: Cons.IH fst_winLossStep snd_winLossStep)
qed

lemma totalWinLoss_eq:
  "totalWinLoss rows =
     (jsSum (map pnlOf (filter isWin rows)),
      jsSum (map (\<lambda>t. js_abs (pnlOf t)) (filter isLoss rows)))"
  by (simp add: totalWinLoss_def winLoss_foldl jsSum_def)

lemma addToTotal_counts [simp]:
  "tot_totalTrades (addToTotal t st) = tot_totalTrades t + totalTrades st"
  "tot_winTrades (addToTotal t st) = tot_winTrades t + winTrades st"
  "tot_lossTrades (addToTotal t st) = tot_lossTrades t + lossTrades st"
  by (simp_all add: addToTotal_def Let_def)

lemma foldl_addToTotal_counts:
  "tot_totalTrades (foldl addToTotal t xs) = tot_totalTrades t + sum_list (map totalTrades xs)"
  "tot_winTrades (foldl addToTotal t xs) = tot_winTrades t + sum_list (map winTrades xs)"
  "tot_lossTrades (foldl addToTotal t xs) = tot_lossTrades t + sum_list (map lossTrades xs)"
  by (induction xs arbitrary: t) simp_all

lemma mset_insertSorted: "mset (insertSorted cmp x ys) = add_mset x (mset ys)"
  by (induction ys) simp_all

lemma mset_sortWith_aux:
  "mset (foldl (\<lambda>acc x. insertSorted cmp x acc) acc xs) = mset acc + mset xs"
  by (induction xs arbitrary: acc) (simp_all add: mset_insertSorted)

lemma mset_sortWith: "mset (sortWith cmp xs) = mset xs"
  by (simp add: sortWith_def mset_sortWith_aux)

lemma sum_list_sortWith: "sum_list (map f (sortWith cmp xs)) = sum_list (map (f :: 'a \<Rightarrow> nat) xs)"
proof -
  have "sum_list (map f (sortWith cmp xs)) = sum_mset (image_mset f (mset (sortWith cmp xs)))"
    by (metis mset_map sum_mset_sum_list)
  also have "\<dots> = sum_mset (image_mset f (mset xs))"
    by (simp add: mset_sortWith)
  also have "\<dots> = sum_list (map f xs)"
    by (metis mset_map sum_mset_sum_list)
  finally show ?thesis .
qed

lemma sum_list_indicator:
  "distinct ks \<Longrightarrow> sum_list (map (\<lambda>k. if a = k then (c :: nat) else 0) ks) = (if a \<in> set ks then c else 0)"
  by (induction ks) auto

lemma sum_over_symbols:
  "distinct ks \<Longrightarrow> t_symbol ` set rows \<subseteq> set ks \<Longrightarrow>
     sum_list (map (\<lambda>k. length (filter P (tradesOf rows k))) ks) = length (filter P rows)"
proof (induction rows)
  case Nil
  then show ?case by (simp add: tradesOf_def)
next
  case (Cons t rows)
  have split: "\<And>k. length (filter P (tradesOf (t # rows) k)) =
      (if t_symbol t = k then (if P t then 1 else 0) else 0) + length (filter P (tradesOf rows k))"
    by (simp add: tradesOf_def)
  have "sum_list (map (\<lambda>k. length (filter P (tradesOf (t # rows) k))) ks) =
      sum_list (map (\<lambda>k. if t_symbol t = k then (if P t then 1 else 0) else 0) ks) +
      sum_list (map (\<lambda>k. length (filter P (tradesOf rows k))) ks)"
    by (simp add: split sum_list_addf)
  also have "\<dots> = (if P t then 1 else 0) + length (filter P rows)"
    using Cons by (simp add: sum_list_indicator)
  finally show ?case by simp
qed

lemma collectStats_entry:
  "(k, st) \<in> set (collectStats rows) \<Longrightarrow> st = applyTrades (initStats k) (tradesOf rows k)"
proof -
  assume "(k, st) \<in> set (collectStats rows)"
  then have "mapGet (collectStats rows) k = Some st"
    using distinct_collectStats [of rows] by (simp add: mapGet_def)
  then show ?thesis by (simp add: mapGet_collectStats split: if_splits)
qed

lemma sum_perSymbol:
  assumes f: "\<And>k. f (finalizeStats rows (applyTrades (initStats k) (tradesOf rows k))) =
                 length (filter P (tradesOf rows k))"
  shows "sum_list (map f (map snd (perSymbolStats rows))) = length (filter P rows)"
proof -
  have "map f (map snd (perSymbolStats rows)) =
      map (\<lambda>e. f (finalizeStats rows (snd e))) (collectStats rows)"
    by (simp add: perSymbolStats_def case_prod_beta)
  also have "\<dots> = map (\<lambda>e. length (filter P (tradesOf rows (fst e)))) (collectStats rows)"
  proof (rule map_cong [OF refl])
    fix e assume "e \<in> set (collectStats rows)"
    then have "snd e = applyTrades (initStats (fst e)) (tradesOf rows (fst e))"
      using collectStats_entry [of "fst e" "snd e" rows] by simp
    then show "f (finalizeStats rows (snd e)) = length (filter P (tradesOf rows (fst e)))"
      using f [of "fst e"] by simp
  qed
  also have "\<dots> = map (\<lambda>k. length (filter P (tradesOf rows k))) (map fst (collectStats rows))"
    by simp
  finally have "sum_list (map f (map snd (perSymbolStats rows))) =
      sum_list (map (\<lambda>k. length (filter P (tradesOf rows k))) (map fst (collectStats rows)))"
    by simp
  also have "\<dots> = length (filter P rows)"
    using distinct_collectStats [of rows] keys_collectStats [of rows]
    by (intro sum_over_symbols) auto
  finally show ?thesis .
qed

lemma total_winTrades:
  "tot_winTrades (foldl addToTotal initTotal (sortedStats rows)) = length (filter isWin rows)"
proof -
  have "sum_list (map winTrades (map snd (perSymbolStats rows))) = length (filter isWin rows)"
    by (rule sum_perSymbol) (simp add: applyTrades_winTrades)
  then show ?thesis
    by (simp add: foldl_addToTotal_counts sortedStats_def sum_list_sortWith initTotal_def)
qed

lemma total_lossTrades:
  "tot_lossTrades (foldl addToTotal initTotal (sortedStats rows)) = length (filter isLoss rows)"
proof -
  have "sum_list (map lossTrades (map snd (perSymbolStats rows))) = length (filter isLoss rows)"
    by (rule sum_perSymbol) (simp add: applyTrades_lossTrades)
  then show ?thesis
    by (simp add: foldl_addToTotal_counts sortedStats_def sum_list_sortWith initTotal_def)
qed

lemma overall_avgWin:
  "tot_avgWin (rep_totalStats (overallStats rows)) = average (map pnlOf (filter isWin rows))"
  by (simp add: overallStats_def Let_def total_winTrades totalWinLoss_eq average_def)

lemma overall_avgLoss:
  "tot_avgLoss (rep_totalStats (overallStats rows)) =
     average (map (\<lambda>t. js_abs (pnlOf t)) (filter isLoss rows))"
  by (simp add: overallStats_def Let_def total_lossTrades totalWinLoss_eq average_def)

lemma overall_profitFactor:
  "overallProfitFactor (overallStats rows) =
     (if js_gt (tot_avgLoss (rep_totalStats (overallStats rows))) (Fin 0)
      then js_div (tot_avgWin (rep_totalStats (overallStats rows)))
             (tot_avgLoss (rep_totalStats (overallStats rows)))
      else Fin 0)"
  by (simp add: overallStats_def Let_def)

lemma example_outcomes:
  "filter isWin exampleRows =
     [\<lparr> t_symbol = ''BTC'', t_side = ''long'', t_pnl = JNumber (Fin 5), t_fee = JString ''0.1'' \<rparr>]"
  "filter isLoss exampleRows =
     [\<lparr> t_symbol = ''ETH'', t_side = ''short'', t_pnl = JNumber (Fin (- 2)), t_fee = JNull \<rparr>,
      \<lparr> t_symbol = ''BTC'', t_side = ''short'', t_pnl = JNumber (Fin (- 1)), t_fee = JNull \<rparr>]"
  by (simp_all add: exampleRows_def isWin_def isLoss_def js_lt_def pnlOf_def js_or_def)

text \<open>
  Claim C3. For every list of closed trades, the profit factor is the average win (the
  sum of the winning pnl divided by the number of wins; 0 when there is no win) divided
  by the average loss (the sum of the absolute losing pnl divided by the number of
  losses), and it is 0 when there is no losing trade. This holds for the statistics of
  every symbol, over the trades of the symbol, and for the overall statistics, over
  all trades.
\<close>

theorem profit_factor_average_ratio:
  "(mapGet (perSymbolStats rows) s = Some st \<longrightarrow>
      profitFactor st =
        (if filter isLoss (tradesOf rows s) = [] then Fin 0
         else js_div (average (map pnlOf (filter isWin (tradesOf rows s))))
                (average (map (\<lambda>t. js_abs (pnlOf t)) (filter isLoss (tradesOf rows s)))))) \<and>
   (analyzeTrades rows = Some rep \<longrightarrow>
      overallProfitFactor rep =
        (if filter isLoss rows = [] then Fin 0
         else js_div (average (map pnlOf (filter isWin rows)))
                (average (map (\<lambda>t. js_abs (pnlOf t)) (filter isLoss rows)))))"
proof (intro conjI impI)
  assume a: "mapGet (perSymbolStats rows) s = Some st"
  let ?ts = "tradesOf rows s"
  have st: "st = finalizeStats rows (applyTrades (initStats s) ?ts)"
    using perSymbolStats_Some [OF a] by simp
  have aw: "avgWin st = average (map pnlOf (filter isWin ?ts))"
    unfolding st by (rule average_wins)
  have al: "avgLoss st = average (map (\<lambda>t. js_abs (pnlOf t)) (filter isLoss ?ts))"
    unfolding st by (rule average_losses)
  have "profitFactor st = (if js_gt (avgLoss st) (Fin 0) then js_div (avgWin st) (avgLoss st)
      else Fin 0)"
    unfolding st by (rule finalizeStats_profitFactor)
  then show "profitFactor st =
        (if filter isLoss ?ts = [] then Fin 0
         else js_div (average (map pnlOf (filter isWin ?ts)))
                (average (map (\<lambda>t. js_abs (pnlOf t)) (filter isLoss ?ts))))"
    by (simp add: aw al average_losses_positive)
next
  assume "analyzeTrades rows = Some rep"
  then have rep: "rep = overallStats rows"
    by (simp add: analyzeTrades_def split: if_splits)
  show "overallProfitFactor rep =
        (if filter isLoss rows = [] then Fin 0
         else js_div (average (map pnlOf (filter isWin rows)))
                (average (map (\<lambda>t. js_abs (pnlOf t)) (filter isLoss rows))))"
    unfolding rep
    by (simp add: overall_profitFactor overall_avgWin overall_avgLoss average_losses_positive)
qed

theorem profit_factor_average_ratio_witness:
  "(\<exists>st. mapGet (perSymbolStats exampleRows) ''BTC'' = Some st \<and> profitFactor st = Fin 5) \<and>
   (\<exists>rep. analyzeTrades exampleRows = Some rep \<and> overallProfitFactor rep = Fin (10 / 3))"
proof -
  let ?st = "finalizeStats exampleRows (applyTrades (initStats ''BTC'') (tradesOf exampleRows ''BTC''))"
  have e: "mapGet (perSymbolStats exampleRows) ''BTC'' = Some ?st"
    by (rule example_btc_entry)
  have "exampleRows \<noteq> []" by (simp add: exampleRows_def)
  then have r: "analyzeTrades exampleRows = Some (overallStats exampleRows)"
    by (simp add: analyzeTrades_def)
  note c = profit_factor_average_ratio [of exampleRows "''BTC''" ?st "overallStats exampleRows"]
  have w: "filter isWin (tradesOf exampleRows ''BTC'') =
      [\<lparr> t_symbol = ''BTC'', t_side = ''long'', t_pnl = JNumber (Fin 5), t_fee = JString ''0.1'' \<rparr>]"
    by (simp add: example_btc_trades isWin_def pnlOf_def js_or_def)
  have l: "filter isLoss (tradesOf exampleRows ''BTC'') =
      [\<lparr> t_symbol = ''BTC'', t_side = ''short'', t_pnl = JNumber (Fin (- 1)), t_fee = JNull \<rparr>]"
    by (simp add: example_btc_trades isLoss_def js_lt_def pnlOf_def js_or_def)
  have "profitFactor ?st = Fin 5"
    using c [THEN conjunct1, THEN mp, OF e]
    by (simp add: w l average_def jsSum_def num_def pnlOf_def js_or_def)
  moreover have "overallProfitFactor (overallStats exampleRows) = Fin (10 / 3)"
    using c [THEN conjunct2, THEN mp, OF r]
    by (simp add: example_outcomes average_def jsSum_def num_def pnlOf_def js_or_def)
  ultimately show ?thesis using e r by blast
qed


section \<open>Wins, losses and break-even trades\<close>














section \<open>The directional win rates and the single-pass reference\<close>

lemma directionalWins_eq:
  "directionalWins rows s (a, b) =
     (a + length (filter (\<lambda>t. t_symbol t = s \<and> isWin t \<and> t_side t = ''long'') rows),
      b + length (filter (\<lambda>t. t_symbol t = s \<and> isWin t \<and> t_side t = ''short'') rows))"
  by (induction rows arbitrary: a b) (auto simp: Let_def isWin_def)

lemma finalizeStats_longWinRate:
  "longWinRate (finalizeStats rows st) =
     ratePercent (fst (directionalWins rows (symbol st) (0, 0))) (longTrades st)"
  by (simp add: finalizeStats_def Let_def)

lemma finalizeStats_shortWinRate:
  "shortWinRate (finalizeStats rows st) =
     ratePercent (snd (directionalWins rows (symbol st) (0, 0))) (shortTrades st)"
  by (simp add: finalizeStats_def Let_def)

lemma mapGet_referenceStep:
  "mapGet (referenceStep m t) key =
     (if (t_symbol t, t_side t) = key
      then Some (fst (case mapGet m key of None \<Rightarrow> (0, 0) | Some c \<Rightarrow> c) + 1,
                 if isWin t then snd (case mapGet m key of None \<Rightarrow> (0, 0) | Some c \<Rightarrow> c) + 1
                 else snd (case mapGet m key of None \<Rightarrow> (0, 0) | Some c \<Rightarrow> c))
      else mapGet m key)"
  by (auto simp: referenceStep_def Let_def mapGet_def map_of_mapSet)

lemma mapGet_foldl_referenceStep:
  "mapGet (foldl referenceStep m rows) key =
     (if filter (\<lambda>t. (t_symbol t, t_side t) = key) rows = [] then mapGet m key
      else Some (fst (case mapGet m key of None \<Rightarrow> (0, 0) | Some c \<Rightarrow> c) +
                   length (filter (\<lambda>t. (t_symbol t, t_side t) = key) rows),
                 snd (case mapGet m key of None \<Rightarrow> (0, 0) | Some c \<Rightarrow> c) +
                   length (filter (\<lambda>t. (t_symbol t, t_side t) = key \<and> isWin t) rows)))"
proof (induction rows arbitrary: m)
  case Nil
  then show ?case by simp
next
  case (Cons t rows)
  have e: "filter (\<lambda>t. (t_symbol t, t_side t) = key) rows = [] \<Longrightarrow>
      filter (\<lambda>t. (t_symbol t, t_side t) = key \<and> isWin t) rows = []"
    by (auto simp: filter_empty_conv)
  show ?case
    by (auto simp: Cons.IH mapGet_referenceStep e)
qed

lemma mapGet_singlePass:
  "mapGet (singlePass rows) (s, side) =
     (if filter (\<lambda>t. t_symbol t = s \<and> t_side t = side) rows = [] then None
      else Some (length (filter (\<lambda>t. t_symbol t = s \<and> t_side t = side) rows),
                 length (filter (\<lambda>t. t_symbol t = s \<and> t_side t = side \<and> isWin t) rows)))"
  by (simp add: singlePass_def mapGet_foldl_referenceStep conj_assoc) (simp add: mapGet_def)

lemma referenceTrades_eq:
  "referenceTrades rows s side = length (filter (\<lambda>t. t_symbol t = s \<and> t_side t = side) rows)"
  by (simp add: referenceTrades_def mapGet_singlePass)

lemma referenceWinRate_eq:
  "referenceWinRate rows s side =
     ratePercent (length (filter (\<lambda>t. t_symbol t = s \<and> t_side t = side \<and> isWin t) rows))
       (length (filter (\<lambda>t. t_symbol t = s \<and> t_side t = side) rows))"
  by (simp add: referenceWinRate_def mapGet_singlePass) (simp add: ratePercent_def)

lemma length_rowsExamined:
  "length (rowsExamined rows) = (card (t_symbol ` set rows) + 2) * length rows"
proof (cases "rows = []")
  case True
  then show ?thesis by (simp add: rowsExamined_def)
next
  case False
  have "length (concat (map (\<lambda>entry. rows) (collectStats rows))) =
      length (collectStats rows) * length rows"
    by (induction "collectStats rows") (simp_all add: length_concat comp_def sum_list_triv)
  with False show ?thesis
    by (simp add: rowsExamined_def length_collectStats algebra_simps)
qed

text \<open>
  Claim C8, as stated, says that one run reads every closed trade exactly once. The
  run over the four example trades of two symbols reads sixteen rows.
\<close>

theorem single_pass_counterexample:
  "\<not> examinedOnce exampleRows \<and> length exampleRows = 4 \<and> length (rowsExamined exampleRows) = 16"
proof -
  have c: "card (t_symbol ` set exampleRows) = 2"
    by (simp add: example_symbols)
  have n: "length exampleRows = 4"
    by (simp add: exampleRows_def)
  have l: "length (rowsExamined exampleRows) = 16"
    by (simp add: length_rowsExamined c n)
  have "\<not> examinedOnce exampleRows"
  proof
    assume "examinedOnce exampleRows"
    then have "length (rowsExamined exampleRows) = length exampleRows"
      by (simp add: examinedOnce_def)
    with l n show False by simp
  qed
  with n l show ?thesis by simp
qed

text \<open>
  Claim C8, amended. The statistics are not computed in a single pass: the first loop
  reads every closed trade once, the loop over the symbols reads all closed trades again
  for every symbol to count its winning long and short trades, and the overall averages
  read them once more, which makes (number of symbols + 2) times the number of closed
  trades row reads in one run. The results are those of a single pass: the numbers of long and
  short trades and the long and short win rates of every symbol are equal to those of
  the single-pass reference aggregation keyed by symbol and side.
\<close>

theorem directional_rates_refine_single_pass:
  "length (rowsExamined rows) = (card (t_symbol ` set rows) + 2) * length rows \<and>
   (mapGet (perSymbolStats rows) s = Some st \<longrightarrow>
      longTrades st = referenceTrades rows s ''long'' \<and>
      shortTrades st = referenceTrades rows s ''short'' \<and>
      longWinRate st = referenceWinRate rows s ''long'' \<and>
      shortWinRate st = referenceWinRate rows s ''short'')"
proof (intro conjI impI)
  show "length (rowsExamined rows) = (card (t_symbol ` set rows) + 2) * length rows"
    by (rule length_rowsExamined)
next
  assume a: "mapGet (perSymbolStats rows) s = Some st"
  have st: "st = finalizeStats rows (applyTrades (initStats s) (tradesOf rows s))"
    using perSymbolStats_Some [OF a] by simp
  have f: "\<And>P. filter P (tradesOf rows s) = filter (\<lambda>t. t_symbol t = s \<and> P t) rows"
    by (simp add: tradesOf_def conj_commute)
  show lt: "longTrades st = referenceTrades rows s ''long''"
    by (simp add: st applyTrades_longTrades referenceTrades_eq f)
  show sh: "shortTrades st = referenceTrades rows s ''short''"
    by (simp add: st applyTrades_shortTrades referenceTrades_eq f)
  have cong: "\<And>side. filter (\<lambda>t. t_symbol t = s \<and> isWin t \<and> t_side t = side) rows =
      filter (\<lambda>t. t_symbol t = s \<and> t_side t = side \<and> isWin t) rows"
    by (rule filter_cong) auto
  show "longWinRate st = referenceWinRate rows s ''long''"
    by (simp add: st finalizeStats_longWinRate directionalWins_eq applyTrades_longTrades
        referenceWinRate_eq f cong)
  show "shortWinRate st = referenceWinRate rows s ''short''"
    by (simp add: st finalizeStats_shortWinRate directionalWins_eq applyTrades_shortTrades
        referenceWinRate_eq f cong)
qed

theorem directional_rates_refine_single_pass_witness:
  "\<exists>st. mapGet (perSymbolStats exampleRows) ''BTC'' = Some st \<and>
     longTrades st = 2 \<and> shortTrades st = 1 \<and> longWinRate st = Fin 50 \<and> shortWinRate st = Fin 0 \<and>
     referenceTrades exampleRows ''BTC'' ''long'' = 2 \<and>
     referenceWinRate exampleRows ''BTC'' ''long'' = Fin 50"
proof -
  let ?st = "finalizeStats exampleRows (applyTrades (initStats ''BTC'') (tradesOf exampleRows ''BTC''))"
  have e: "mapGet (perSymbolStats exampleRows) ''BTC'' = Some ?st"
    by (rule example_btc_entry)
  note c = directional_rates_refine_single_pass [of exampleRows "''BTC''" ?st,
      THEN conjunct2, THEN mp, OF e]
  have sp: "singlePass exampleRows = [((''BTC'', ''long''), (2, 1)), ((''ETH'', ''short''), (1, 0)),
      ((''BTC'', ''short''), (1, 0))]"
    by (simp add: singlePass_def exampleRows_def referenceStep_def mapGet_def isWin_def
        pnlOf_def js_or_def Let_def)
  have r1: "referenceTrades exampleRows ''BTC'' ''long'' = 2"
    by (simp add: referenceTrades_def sp mapGet_def)
  have r2: "referenceTrades exampleRows ''BTC'' ''short'' = 1"
    by (simp add: referenceTrades_def sp mapGet_def)
  have r3: "referenceWinRate exampleRows ''BTC'' ''long'' = Fin 50"
    by (simp add: referenceWinRate_def sp mapGet_def ratePercent_def num_def)
  have r4: "referenceWinRate exampleRows ''BTC'' ''short'' = Fin 0"
    by (simp add: referenceWinRate_def sp mapGet_def ratePercent_def num_def)
  show ?thesis using e c r1 r2 r3 r4 by simp
qed


section \<open>A pnl that is null, missing or not a number\<close>

text \<open>
  A pnl column that is \<open>null\<close>, missing, the empty string, the number 0 or \<open>NaN\<close> is
  falsy: the script parses the string "0" in its place and the pnl is 0.
\<close>

lemma pnlOf_default:
  "\<not> truthy (t_pnl t) \<Longrightarrow> pnlOf t = Fin 0"
  by (simp add: pnlOf_def js_or_def parseFloatStr_def isWhiteSpace_def isDigit_def
      digitValue_def digitsValue_def exponentOf_def)

lemma pnlOf_null_missing:
  "t_pnl t = JNull \<or> t_pnl t = JUndefined \<or> t_pnl t = JString [] \<Longrightarrow>
     pnlOf t = Fin 0 \<and> isBreakEven t"
  using pnlOf_default [of t]
  by (auto simp: isBreakEven_def isWin_def isLoss_def js_lt_def)

lemma parseFloatStr_abc: "parseFloatStr ''abc'' = NaN"
  by (simp add: parseFloatStr_def isWhiteSpace_def isDigit_def digitValue_def)

text \<open>
  The helper of the consistency script reads the same text as 0: it replaces a result
  that is not finite.
\<close>

lemma parseNumber_abc: "parseNumber (JString ''abc'') = 0"
  by (simp add: parseNumber_def nullish_def parseFloatStr_abc)

lemma textPnl_trades: "tradesOf textPnlRows ''BTC'' = textPnlRows"
  by (simp add: tradesOf_def textPnlRows_def)

text \<open>
  Claim C10 says that a closed trade whose pnl is null, missing or not a number is
  parsed as 0, is break-even and adds 0 to the total pnl. For null and missing pnl the
  script does that. For a text that does not start with a number the script has no
  guard: \<open>parseFloat\<close> gives \<open>NaN\<close>. The trade is still counted as break-even, neither
  win nor loss, and is not the largest win or loss, but the total pnl of its symbol
  becomes \<open>NaN\<close>: after a win of 5 and a trade with the pnl text "abc" the total is
  \<open>NaN\<close>, not 5.
\<close>

theorem text_pnl_total_is_NaN:
  "pnlOf (textPnlRows ! 1) = NaN \<and>
   (\<exists>st. mapGet (perSymbolStats textPnlRows) ''BTC'' = Some st \<and>
      totalTrades st = 2 \<and> winTrades st = 1 \<and> lossTrades st = 0 \<and> breakEvenTrades st = 1 \<and>
      largestWin st = Fin 5 \<and> largestLoss st = Fin 0 \<and>
      totalPnl st = NaN \<and> netPnl st = NaN)"
proof -
  let ?st = "finalizeStats textPnlRows (applyTrades (initStats ''BTC'') textPnlRows)"
  have p: "pnlOf (textPnlRows ! 1) = NaN"
    by (simp add: textPnlRows_def pnlOf_def js_or_def parseFloatStr_abc)
  have e: "mapGet (perSymbolStats textPnlRows) ''BTC'' = Some ?st"
    by (simp add: mapGet_perSymbolStats mapGet_collectStats textPnl_trades)
       (simp add: textPnlRows_def)
  have a: "applyTrades (initStats ''BTC'') textPnlRows =
      (initStats ''BTC'')\<lparr> totalTrades := 2, winTrades := 1, breakEvenTrades := 1,
        totalPnl := NaN, netPnl := NaN, avgWin := Fin 5, largestWin := Fin 5, longTrades := 2 \<rparr>"
    by (simp add: textPnlRows_def applyTrades_def updateStats_def initStats_def pnlOf_def
        feeOf_def js_or_def parseFloatStr_abc js_lt_def Let_def parseFloatStr_def
        isWhiteSpace_def isDigit_def digitValue_def digitsValue_def exponentOf_def)
  have "totalTrades ?st = 2 \<and> winTrades ?st = 1 \<and> lossTrades ?st = 0 \<and>
      breakEvenTrades ?st = 1 \<and> largestWin ?st = Fin 5 \<and> largestLoss ?st = Fin 0 \<and>
      totalPnl ?st = NaN \<and> netPnl ?st = NaN"
    unfolding a by (simp add: finalizeStats_def Let_def initStats_def)
  with p e show ?thesis by blast
qed


section \<open>The consistency check only reads\<close>

lemma onlyReads_refl: "onlyReads c w w"
  by (simp add: onlyReads_def)

lemma onlyReads_logOut: "onlyReads c w0 w \<Longrightarrow> onlyReads c w0 (logOut out w)"
  by (auto simp: onlyReads_def logOut_def)

lemma onlyReads_callClose: "onlyReads c w0 w \<Longrightarrow> onlyReads c w0 (callClose w)"
  by (auto simp: onlyReads_def callClose_def)

lemma onlyReads_callGetPositions:
  "callGetPositions c w = (r, w') \<Longrightarrow> onlyReads c w0 w \<Longrightarrow> onlyReads c w0 w'"
  by (auto simp: onlyReads_def callGetPositions_def Let_def readsAreReads_def)

lemma onlyReads_callExecute:
  "callExecute c sql w = (r, w') \<Longrightarrow> isSelect sql \<Longrightarrow> onlyReads c w0 w \<Longrightarrow> onlyReads c w0 w'"
  by (auto simp: onlyReads_def callExecute_def Let_def readsAreReads_def)

lemma statements_are_selects:
  "isSelect sqlPositions" "isSelect sqlRecentTrades" "isSelect sqlOpenTrades"
  "isSelect sqlCloseTrades"
  by (simp_all add: isSelect_def sqlPositions_def sqlRecentTrades_def sqlOpenTrades_def
      sqlCloseTrades_def)

lemma onlyReads_tryBlock: "onlyReads c w0 w \<Longrightarrow> onlyReads c w0 (tryBlock c w)"
proof -
  assume a: "onlyReads c w0 w"
  show ?thesis
  proof (cases "callGetPositions c w")
    case (Pair r1 w1)
    have o1: "onlyReads c w0 w1" by (rule onlyReads_callGetPositions [OF Pair a])
    show ?thesis
    proof (cases r1)
      case None
      with Pair o1 show ?thesis by (simp add: tryBlock_def onlyReads_logOut)
    next
      case (Some rawPositions)
      let ?ex = "List.map_filter (toExchangePosition (numberToString c)) rawPositions"
      let ?w2 = "logOut (OutExchangePositions ?ex) w1"
      have o2: "onlyReads c w0 ?w2" by (rule onlyReads_logOut [OF o1])
      obtain r3 w3 where e3: "callExecute c sqlPositions ?w2 = (r3, w3)"
        by (cases "callExecute c sqlPositions ?w2")
      have o3: "onlyReads c w0 w3"
        by (rule onlyReads_callExecute [OF e3 statements_are_selects(1) o2])
      show ?thesis
      proof (cases r3)
        case None
        with Pair Some e3 o3 show ?thesis by (simp add: tryBlock_def Let_def onlyReads_logOut)
      next
        case rows: (Some rows)
        let ?db = "map (toDbPosition (numberToString c)) rows"
        let ?w5 = "logOut (OutSummary (compareSnapshots ?ex ?db)) (logOut (OutDbPositions ?db) w3)"
        have o5: "onlyReads c w0 ?w5" by (intro onlyReads_logOut o3)
        obtain r6 w6 where e6: "callExecute c sqlRecentTrades ?w5 = (r6, w6)"
          by (cases "callExecute c sqlRecentTrades ?w5")
        have o6: "onlyReads c w0 w6"
          by (rule onlyReads_callExecute [OF e6 statements_are_selects(2) o5])
        show ?thesis
        proof (cases r6)
          case None
          with Pair Some e3 rows e6 o6 show ?thesis
            by (simp add: tryBlock_def Let_def onlyReads_logOut)
        next
          case recent: (Some recentTrades)
          let ?w7 = "logOut (OutRecentTrades recentTrades) w6"
          have o7: "onlyReads c w0 ?w7" by (rule onlyReads_logOut [OF o6])
          obtain r8 w8 where e8: "callExecute c sqlOpenTrades ?w7 = (r8, w8)"
            by (cases "callExecute c sqlOpenTrades ?w7")
          have o8: "onlyReads c w0 w8"
            by (rule onlyReads_callExecute [OF e8 statements_are_selects(3) o7])
          show ?thesis
          proof (cases r8)
            case None
            with Pair Some e3 rows e6 recent e8 o8 show ?thesis
              by (simp add: tryBlock_def Let_def onlyReads_logOut)
          next
            case opn: (Some openTrades)
            let ?w9 = "logOut (OutOpenTrades openTrades) w8"
            have o9: "onlyReads c w0 ?w9" by (rule onlyReads_logOut [OF o8])
            obtain r10 w10 where e10: "callExecute c sqlCloseTrades ?w9 = (r10, w10)"
              by (cases "callExecute c sqlCloseTrades ?w9")
            have o10: "onlyReads c w0 w10"
              by (rule onlyReads_callExecute [OF e10 statements_are_selects(4) o9])
            show ?thesis
            proof (cases r10)
              case None
              with Pair Some e3 rows e6 recent e8 opn e10 o10 show ?thesis
                by (simp add: tryBlock_def Let_def onlyReads_logOut)
            next
              case cls: (Some closeTrades)
              with Pair Some e3 rows e6 recent e8 opn e10 o10 show ?thesis
                by (simp add: tryBlock_def Let_def onlyReads_logOut)
            qed
          qed
        qed
      qed
    qed
  qed
qed

lemma onlyReads_checkConsistency: "onlyReads c w (checkConsistency c w)"
  unfolding checkConsistency_def
  by (intro onlyReads_callClose onlyReads_tryBlock onlyReads_logOut onlyReads_refl)

lemma exampleClients_reads: "readsAreReads exampleClients"
  by (simp add: readsAreReads_def exampleClients_def)

text \<open>
  Claim C9. The consistency check is read-only. Every call it makes to the two clients
  is the retrieval of the exchange positions, a SELECT statement or the closing of the
  database client: it submits no order and runs no statement that inserts, updates or
  deletes. It only adds to the console. With clients whose SELECT statements and whose
  retrieval of positions leave the database and the exchange as they are, the positions
  table, the trades table and the state of the exchange are after the check what they
  were before it, whatever the two snapshots hold.
\<close>

theorem consistency_check_read_only:
  "(\<exists>cs. calls (checkConsistency c w) = calls w @ cs \<and> list_all isReadCall cs) \<and>
   (\<exists>out. console (checkConsistency c w) = console w @ out) \<and>
   (readsAreReads c \<longrightarrow>
      positionsTable (database (checkConsistency c w)) = positionsTable (database w) \<and>
      tradesTable (database (checkConsistency c w)) = tradesTable (database w) \<and>
      exchange (checkConsistency c w) = exchange w)"
  using onlyReads_checkConsistency [of c w] by (simp add: onlyReads_def)

theorem consistency_check_read_only_witness:
  "readsAreReads exampleClients \<and>
   positionsTable (database (checkConsistency exampleClients exampleWorld)) =
     positionsTable (database exampleWorld) \<and>
   tradesTable (database (checkConsistency exampleClients exampleWorld)) =
     tradesTable (database exampleWorld) \<and>
   exchange (checkConsistency exampleClients exampleWorld) = exchange exampleWorld \<and>
   calls (checkConsistency exampleClients exampleWorld) =
     [CallGetPositions, CallExecute sqlPositions, CallExecute sqlRecentTrades,
      CallExecute sqlOpenTrades, CallExecute sqlCloseTrades, CallClose]"
proof -
  have r: "readsAreReads exampleClients" by (rule exampleClients_reads)
  have s: "isSelect sqlPositions" "isSelect sqlRecentTrades" "isSelect sqlOpenTrades"
    "isSelect sqlCloseTrades"
    by (rule statements_are_selects)+
  have c: "calls (checkConsistency exampleClients exampleWorld) =
     [CallGetPositions, CallExecute sqlPositions, CallExecute sqlRecentTrades,
      CallExecute sqlOpenTrades, CallExecute sqlCloseTrades, CallClose]"
    by (simp add: checkConsistency_def tryBlock_def callClose_def callExecute_def
        callGetPositions_def logOut_def exampleClients_def exampleWorld_def s Let_def)
  show ?thesis
    using consistency_check_read_only [of exampleClients exampleWorld,
        THEN conjunct2, THEN conjunct2, THEN mp, OF r] r c
    by simp
qed


section \<open>The hard stop-loss of the mid bracket\<close>

lemma evaluate_HardStopLoss:
  "evaluate cfg ctx pos price = HardStopLoss \<longleftrightarrow>
     pnlPercent pos price \<le> stopLossThreshold cfg (p_leverage pos)"
  by (auto simp: evaluate_def Let_def split: option.splits)

lemma example_pnl:
  "pnlPercent examplePosition (300 / 7) = - 4"
  "pnlPercent examplePosition (310 / 7) = - 3.9"
  by (simp_all add: pnlPercent_def examplePosition_def)

text \<open>
  Claim C6. For every position with leverage 7, which is in the mid bracket, under the
  stop-loss configuration low -5, mid -4, high -3.5, the threshold is -4 and the
  evaluation gives HardStopLoss exactly when pnlPercent is at most -4: it does at -4.0
  and does not at -3.9. The decision of the engine is the same when the code-level
  protection is on, the price is present, not zero and not stale, and there is no
  override token.
\<close>

theorem hard_stop_loss_mid_bracket:
  "stopLoss cfg = \<lparr> low = - 5, mid = - 4, high = - 3.5 \<rparr> \<Longrightarrow> p_leverage pos = 7 \<Longrightarrow>
     stopLossThreshold cfg (p_leverage pos) = - 4 \<and>
     (evaluate cfg ctx pos price = HardStopLoss \<longleftrightarrow> pnlPercent pos price \<le> - 4) \<and>
     (pnlPercent pos price = - 4 \<longrightarrow> evaluate cfg ctx pos price = HardStopLoss) \<and>
     (pnlPercent pos price = - 3.9 \<longrightarrow> evaluate cfg ctx pos price \<noteq> HardStopLoss) \<and>
     (enableCodeLevelProtection cfg \<and> tickPrice tick = Some price \<and> price \<noteq> 0 \<and>
      tickAge tick \<le> bound \<and> \<not> token \<longrightarrow>
        (fst (engineDecision cfg bound ctx pos tick token) = HardStopLoss \<longleftrightarrow>
           pnlPercent pos price \<le> - 4))"
proof -
  assume s: "stopLoss cfg = \<lparr> low = - 5, mid = - 4, high = - 3.5 \<rparr>" and l: "p_leverage pos = 7"
  have t: "stopLossThreshold cfg (p_leverage pos) = - 4"
    by (simp add: stopLossThreshold_def s l)
  have e: "evaluate cfg ctx pos price = HardStopLoss \<longleftrightarrow> pnlPercent pos price \<le> - 4"
    by (simp add: evaluate_HardStopLoss t)
  have d: "enableCodeLevelProtection cfg \<and> tickPrice tick = Some price \<and> price \<noteq> 0 \<and>
      tickAge tick \<le> bound \<and> \<not> token \<longrightarrow>
        (fst (engineDecision cfg bound ctx pos tick token) = HardStopLoss \<longleftrightarrow>
           pnlPercent pos price \<le> - 4)"
    by (auto simp: engineDecision_def e)
  from t e d show ?thesis by simp
qed

theorem hard_stop_loss_mid_bracket_witness:
  "stopLoss (getAlphaBetaStrategy 10) = \<lparr> low = - 5, mid = - 4, high = - 3.5 \<rparr> \<and>
   p_leverage examplePosition = 7 \<and>
   pnlPercent examplePosition (300 / 7) = - 4 \<and>
   evaluate (getAlphaBetaStrategy 10) exampleContext examplePosition (300 / 7) = HardStopLoss \<and>
   pnlPercent examplePosition (310 / 7) = - 3.9 \<and>
   evaluate (getAlphaBetaStrategy 10) exampleContext examplePosition (310 / 7) \<noteq> HardStopLoss"
proof -
  have s: "stopLoss (getAlphaBetaStrategy 10) = \<lparr> low = - 5, mid = - 4, high = - 3.5 \<rparr>"
    by (simp add: getAlphaBetaStrategy_def)
  have l: "p_leverage examplePosition = 7"
    by (simp add: examplePosition_def)
  note a = hard_stop_loss_mid_bracket [OF s l, of exampleContext "300 / 7"]
  note b = hard_stop_loss_mid_bracket [OF s l, of exampleContext "310 / 7"]
  have "evaluate (getAlphaBetaStrategy 10) exampleContext examplePosition (300 / 7) = HardStopLoss"
    using a example_pnl(1) by simp
  moreover have
    "evaluate (getAlphaBetaStrategy 10) exampleContext examplePosition (310 / 7) \<noteq> HardStopLoss"
    using b example_pnl(2) by simp
  ultimately show ?thesis using s l example_pnl by simp
qed

section \<open>The trailing-stop floor\<close>

subsection \<open>The highest reached level\<close>

lemma highestReached_None:
  "highestReached levels peak = None \<longleftrightarrow> (\<forall>l \<in> set levels. peak < trigger l)"
  by (induction levels) (auto split: option.splits)

lemma highestReached_Some:
  "highestReached levels peak = Some h \<Longrightarrow>
     h \<in> set levels \<and> trigger h \<le> peak \<and>
     (\<forall>l \<in> set levels. trigger l \<le> peak \<longrightarrow> trigger l \<le> trigger h)"
proof (induction levels arbitrary: h)
  case Nil
  then show ?case by simp
next
  case (Cons l levels)
  show ?case
  proof (cases "highestReached levels peak")
    case None
    then have no: "\<forall>l' \<in> set levels. peak < trigger l'"
      by (simp add: highestReached_None)
    from Cons.prems None have "trigger l \<le> peak" and "h = l"
      by (simp_all split: if_splits)
    with no show ?thesis by auto
  next
    case (Some g)
    note ih = Cons.IH [OF Some]
    show ?thesis
    proof (cases "trigger l \<le> peak \<and> trigger g < trigger l")
      case True
      with Cons.prems Some have "h = l" by simp
      with True ih show ?thesis by fastforce
    next
      case False
      with Cons.prems Some have "h = g" by auto
      with False ih show ?thesis by fastforce
    qed
  qed
qed

lemma floorLe_refl: "floorLe f f"
  by (cases f) simp_all

lemma floorLe_trans: "floorLe f g \<Longrightarrow> floorLe g h \<Longrightarrow> floorLe f h"
  by (cases f; cases g; cases h) simp_all

lemma floorLe_tighten: "floorLe f (tighten f g)"
  by (cases f; cases g) simp_all

lemma tighten_above: "floorLe f g \<Longrightarrow> tighten f g = g"
  by (cases f; cases g) simp_all

lemma floorFor_mono:
  assumes m: "stopAtMonotone (trailingLevels cfg)" and pq: "p \<le> q"
  shows "floorLe (floorFor cfg p) (floorFor cfg q)"
proof (cases "highestReached (trailingLevels cfg) p")
  case None
  then show ?thesis by (simp add: floorFor_def)
next
  case (Some hp)
  note a = highestReached_Some [OF Some]
  from a pq have reached: "trigger hp \<le> q" by simp
  show ?thesis
  proof (cases "highestReached (trailingLevels cfg) q")
    case None
    with a reached show ?thesis by (auto simp: highestReached_None)
  next
    case hq: (Some hq)
    note b = highestReached_Some [OF hq]
    from a b reached have "trigger hp \<le> trigger hq" by blast
    with m a b have "stopAt hp \<le> stopAt hq" by (auto simp: stopAtMonotone_def)
    with Some hq show ?thesis by (simp add: floorFor_def)
  qed
qed

subsection \<open>One evaluation and its commit\<close>

lemma afterEvaluation_fields:
  "peakPnlPercent (afterEvaluation pos price) = max (peakPnlPercent pos) (pnlPercent pos price)"
  "trailingFloorPercent (afterEvaluation pos price) = trailingFloorPercent pos"
  by (simp_all add: afterEvaluation_def)

lemma commitClose_fields:
  "commitClose cfg pos a qty = Some pos' \<Longrightarrow>
     peakPnlPercent pos' = peakPnlPercent pos \<and>
     trailingFloorPercent pos' =
       tighten (trailingFloorPercent pos) (floorFor cfg (peakPnlPercent pos))"
  by (auto simp: commitClose_def Let_def split: if_splits)

lemma afterEvaluation_below:
  assumes m: "stopAtMonotone (trailingLevels cfg)"
    and c: "floorLe (trailingFloorPercent pos) (floorFor cfg (peakPnlPercent pos))"
  shows "floorLe (trailingFloorPercent (afterEvaluation pos price))
     (floorFor cfg (peakPnlPercent (afterEvaluation pos price)))"
proof -
  let ?peak = "max (peakPnlPercent pos) (pnlPercent pos price)"
  have "floorLe (floorFor cfg (peakPnlPercent pos)) (floorFor cfg ?peak)"
    by (rule floorFor_mono [OF m]) simp
  with c have "floorLe (trailingFloorPercent pos) (floorFor cfg ?peak)"
    by (rule floorLe_trans)
  then show ?thesis
    by (simp add: afterEvaluation_fields)
qed

lemma commitClose_records:
  "commitClose cfg pos a qty = Some pos' \<Longrightarrow>
     floorLe (trailingFloorPercent pos) (floorFor cfg (peakPnlPercent pos)) \<Longrightarrow>
     trailingFloorPercent pos' = floorFor cfg (peakPnlPercent pos')"
  using commitClose_fields [of cfg pos a qty pos'] by (simp add: tighten_above)

subsection \<open>The sequence of evaluations\<close>

lemma evaluations_floors:
  "floorsNonDecreasing (trailingFloorPercent pos #
     map (\<lambda>e. trailingFloorPercent (snd e)) (evaluations cfg ctx pos prices))"
proof (induction prices arbitrary: pos)
  case Nil
  then show ?case by simp
next
  case (Cons price prices)
  let ?a = "evaluate cfg ctx pos price"
  let ?p1 = "afterEvaluation pos price"
  have s1: "floorLe (trailingFloorPercent pos) (trailingFloorPercent ?p1)"
    by (simp add: afterEvaluation_fields floorLe_refl)
  show ?case
  proof (cases "closesPosition ?a")
    case True
    with s1 show ?thesis by (simp add: Let_def)
  next
    case notClosed: False
    show ?thesis
    proof (cases "orderQuantity cfg ?p1 ?a")
      case None
      with notClosed s1 Cons.IH [of ?p1] show ?thesis by (simp add: Let_def)
    next
      case qty: (Some qty)
      show ?thesis
      proof (cases "commitClose cfg ?p1 ?a qty")
        case None
        with notClosed qty s1 show ?thesis by (simp add: Let_def)
      next
        case (Some p2)
        have "floorLe (trailingFloorPercent ?p1) (trailingFloorPercent p2)"
          using commitClose_fields [OF Some] by (simp add: floorLe_tighten)
        with s1 have "floorLe (trailingFloorPercent pos) (trailingFloorPercent p2)"
          by (rule floorLe_trans)
        with notClosed qty Some Cons.IH [of p2] show ?thesis by (simp add: Let_def)
      qed
    qed
  qed
qed

lemma evaluations_below:
  "stopAtMonotone (trailingLevels cfg) \<Longrightarrow>
   floorLe (trailingFloorPercent pos) (floorFor cfg (peakPnlPercent pos)) \<Longrightarrow>
     list_all (\<lambda>e. floorLe (trailingFloorPercent (snd e)) (floorFor cfg (peakPnlPercent (snd e))))
       (evaluations cfg ctx pos prices)"
proof (induction prices arbitrary: pos)
  case Nil
  then show ?case by simp
next
  case (Cons price prices)
  let ?a = "evaluate cfg ctx pos price"
  let ?p1 = "afterEvaluation pos price"
  have l1: "floorLe (trailingFloorPercent ?p1) (floorFor cfg (peakPnlPercent ?p1))"
    by (rule afterEvaluation_below [OF Cons.prems])
  show ?case
  proof (cases "closesPosition ?a")
    case True
    with l1 show ?thesis by (simp add: Let_def)
  next
    case notClosed: False
    show ?thesis
    proof (cases "orderQuantity cfg ?p1 ?a")
      case None
      with notClosed l1 Cons.IH [OF Cons.prems(1) l1] show ?thesis by (simp add: Let_def)
    next
      case qty: (Some qty)
      show ?thesis
      proof (cases "commitClose cfg ?p1 ?a qty")
        case None
        with notClosed qty l1 show ?thesis by (simp add: Let_def)
      next
        case (Some p2)
        have "trailingFloorPercent p2 = floorFor cfg (peakPnlPercent p2)"
          by (rule commitClose_records [OF Some l1])
        then have l2: "floorLe (trailingFloorPercent p2) (floorFor cfg (peakPnlPercent p2))"
          by (simp add: floorLe_refl)
        from notClosed qty Some l2 Cons.IH [OF Cons.prems(1) l2] show ?thesis
          by (simp add: Let_def)
      qed
    qed
  qed
qed

lemma evaluate_TrailingStopClose:
  "evaluate cfg ctx pos price = TrailingStopClose \<longleftrightarrow>
     stopLossThreshold cfg (p_leverage pos) < pnlPercent pos price \<and>
     (\<exists>f. floorInEffect cfg pos price = Some f \<and> pnlPercent pos price \<le> f)"
  by (auto simp: evaluate_def Let_def floorInEffect_def floorFor_def split: option.splits)

lemma recorded_floor_closes:
  assumes m: "stopAtMonotone (trailingLevels cfg)"
    and c: "floorLe (trailingFloorPercent pos) (floorFor cfg (peakPnlPercent pos))"
    and f: "trailingFloorPercent pos = Some f"
    and above: "stopLossThreshold cfg (p_leverage pos) < pnlPercent pos price"
    and below: "pnlPercent pos price \<le> f"
  shows "evaluate cfg ctx pos price = TrailingStopClose"
proof -
  have "floorLe (floorFor cfg (peakPnlPercent pos)) (floorInEffect cfg pos price)"
    unfolding floorInEffect_def by (rule floorFor_mono [OF m]) simp
  with c have "floorLe (Some f) (floorInEffect cfg pos price)"
    unfolding f [symmetric] by (rule floorLe_trans)
  then obtain g where g: "floorInEffect cfg pos price = Some g" and fg: "f \<le> g"
    by (cases "floorInEffect cfg pos price") simp_all
  from below fg have "pnlPercent pos price \<le> g" by simp
  with above g show ?thesis by (simp add: evaluate_TrailingStopClose)
qed

subsection \<open>The levels of the strategy\<close>

lemma alphaBeta_highestReached:
  "highestReached (trailingLevels (getAlphaBetaStrategy m)) peak =
     (if 10 \<le> peak then Some \<lparr> trigger = 10, stopAt = 6 \<rparr>
      else if 6 \<le> peak then Some \<lparr> trigger = 6, stopAt = 3 \<rparr>
      else if 3 \<le> peak then Some \<lparr> trigger = 3, stopAt = 1 \<rparr>
      else None)"
  by (simp add: trailingLevels_def getAlphaBetaStrategy_def)

lemma alphaBeta_floorFor:
  "floorFor (getAlphaBetaStrategy m) peak =
     (if 10 \<le> peak then Some 6 else if 6 \<le> peak then Some 3
      else if 3 \<le> peak then Some 1 else None)"
  by (simp add: floorFor_def alphaBeta_highestReached)

lemma alphaBeta_stopAtMonotone: "stopAtMonotone (trailingLevels (getAlphaBetaStrategy m))"
  by (simp add: stopAtMonotone_def trailingLevels_def getAlphaBetaStrategy_def)

lemma alphaBeta_threshold_negative:
  "stopLossThreshold (getAlphaBetaStrategy m) lev < 0"
  by (simp add: stopLossThreshold_def getAlphaBetaStrategy_def)

lemma trailing_example:
  "peakPnlPercent pos = 7 \<Longrightarrow> pnlPercent pos price = 3 \<Longrightarrow>
     evaluate (getAlphaBetaStrategy m) ctx pos price = TrailingStopClose \<and>
     floorInEffect (getAlphaBetaStrategy m) pos price = Some 3"
  using alphaBeta_threshold_negative [of m "p_leverage pos"]
  by (simp add: evaluate_TrailingStopClose floorInEffect_def alphaBeta_floorFor)

lemma looseningConfig_floorFor:
  "floorFor looseningConfig peak =
     (if 10 \<le> peak then Some 6 else if 6 \<le> peak then Some 3
      else if 3 \<le> peak then Some 5 else None)"
  by (simp add: floorFor_def trailingLevels_def looseningConfig_def getAlphaBetaStrategy_def)

lemma looseningConfig_valid: "configValid looseningConfig"
  by (simp add: configValid_def looseningConfig_def getAlphaBetaStrategy_def trailingLevels_def
      takeProfitStages_def)

subsection \<open>The peak over the evaluations\<close>

lemma evaluations_peaks:
  "stopAtMonotone (trailingLevels cfg) \<Longrightarrow>
     floorsNonDecreasing (floorFor cfg (peakPnlPercent pos) #
       map (\<lambda>e. floorFor cfg (peakPnlPercent (snd e))) (evaluations cfg ctx pos prices))"
proof (induction prices arbitrary: pos)
  case Nil
  then show ?case by simp
next
  case (Cons price prices)
  let ?a = "evaluate cfg ctx pos price"
  let ?p1 = "afterEvaluation pos price"
  have s1: "floorLe (floorFor cfg (peakPnlPercent pos)) (floorFor cfg (peakPnlPercent ?p1))"
    by (rule floorFor_mono [OF Cons.prems]) (simp add: afterEvaluation_fields)
  show ?case
  proof (cases "closesPosition ?a")
    case True
    with s1 show ?thesis by (simp add: Let_def)
  next
    case notClosed: False
    show ?thesis
    proof (cases "orderQuantity cfg ?p1 ?a")
      case None
      with notClosed s1 Cons.IH [OF Cons.prems, of ?p1] show ?thesis by (simp add: Let_def)
    next
      case qty: (Some qty)
      show ?thesis
      proof (cases "commitClose cfg ?p1 ?a qty")
        case None
        with notClosed qty s1 show ?thesis by (simp add: Let_def)
      next
        case (Some p2)
        have "peakPnlPercent p2 = peakPnlPercent ?p1"
          using commitClose_fields [OF Some] by simp
        with notClosed qty Some s1 Cons.IH [OF Cons.prems, of p2] show ?thesis
          by (simp add: Let_def)
      qed
    qed
  qed
qed

lemma evaluations_first:
  "fst (hd (evaluations cfg ctx pos (price # prices))) = evaluate cfg ctx pos price"
  by (simp add: Let_def split: option.splits)

subsection \<open>Two runs of the engine\<close>

lemma alphaBeta_run:
  "map (\<lambda>e. (fst e, trailingFloorPercent (snd e), peakPnlPercent (snd e)))
     (evaluations (getAlphaBetaStrategy 10) exampleContext examplePosition
        [150, 200, 1000 / 7, 300]) =
   [(NoAction, None, 7 / 2), (PartialClose 5, Some 3, 7), (TrailingStopClose, Some 3, 7)]"
  by (simp add: Let_def evaluate_def pnlPercent_def examplePosition_def exampleContext_def
      afterEvaluation_def floorInEffect_def floorFor_def trailingLevels_def
      orderQuantity_def commitClose_def takeProfitStages_def stopLossThreshold_def
      getAlphaBetaStrategy_def)

lemma looseningConfig_run:
  "map (\<lambda>e. (fst e, floorFor looseningConfig (peakPnlPercent (snd e)),
               trailingFloorPercent (snd e), peakPnlPercent (snd e)))
     (evaluations looseningConfig exampleContext examplePosition [1250 / 7, 200, 1100 / 7]) =
   [(PartialClose 5, Some 5, Some 5, 11 / 2), (NoAction, Some 3, Some 5, 7),
    (NoAction, Some 3, Some 5, 7)]"
  by (simp add: Let_def evaluate_def pnlPercent_def examplePosition_def exampleContext_def
      afterEvaluation_def floorInEffect_def floorFor_def
      orderQuantity_def commitClose_def takeProfitStages_def stopLossThreshold_def
      trailingLevels_def looseningConfig_def getAlphaBetaStrategy_def)

text \<open>
  Claim C5, as stated, says of every open position that the floor never reverts to a
  looser value once it is set to the stopAt of a level, and that the floor in effect is
  the stopAt of the highest level whose trigger the peak has reached. A configuration
  is valid when its triggers increase; nothing is asked of its stopAt values. With the
  levels (3, 5), (6, 3), (10, 6) and a long position opened at 100 with leverage 7, the
  evaluations at the prices 1250 / 7, 200 and 1100 / 7 see the peaks 5.5, 7 and 7: the
  stopAt of the highest reached level is 5, then 3, then 3, which is a looser floor
  after a tighter one, and the floor that is recorded with the partial close at the
  first price and only tightened stays at 5, above the stopAt of the highest reached
  level. At the third price the pnl is 4, below the floor 5 that was set, and the
  engine does not close the position.
\<close>

theorem trailing_floor_loosens_counterexample:
  "configValid looseningConfig \<and>
   trailingFloorPercent examplePosition = None \<and>
   map (\<lambda>e. floorFor looseningConfig (peakPnlPercent (snd e)))
     (evaluations looseningConfig exampleContext examplePosition [1250 / 7, 200, 1100 / 7]) =
     [Some 5, Some 3, Some 3] \<and>
   \<not> floorsNonDecreasing
     (map (\<lambda>e. floorFor looseningConfig (peakPnlPercent (snd e)))
        (evaluations looseningConfig exampleContext examplePosition [1250 / 7, 200, 1100 / 7])) \<and>
   map (\<lambda>e. trailingFloorPercent (snd e))
     (evaluations looseningConfig exampleContext examplePosition [1250 / 7, 200, 1100 / 7]) =
     [Some 5, Some 5, Some 5] \<and>
   \<not> list_all (\<lambda>e. floorLe (trailingFloorPercent (snd e))
          (map_option stopAt
            (highestReached (trailingLevels looseningConfig) (peakPnlPercent (snd e)))))
     (evaluations looseningConfig exampleContext examplePosition [1250 / 7, 200, 1100 / 7]) \<and>
   pnlPercent examplePosition (1100 / 7) = 4 \<and>
   map fst (evaluations looseningConfig exampleContext examplePosition [1250 / 7, 200, 1100 / 7]) =
     [PartialClose 5, NoAction, NoAction] \<and>
   \<not> stopAtMonotone (trailingLevels looseningConfig)"
proof -
  let ?es = "evaluations looseningConfig exampleContext examplePosition [1250 / 7, 200, 1100 / 7]"
  let ?row = "\<lambda>e. (fst e, floorFor looseningConfig (peakPnlPercent (snd e)),
               trailingFloorPercent (snd e), peakPnlPercent (snd e))"
  note run = looseningConfig_run
  have eff: "map (\<lambda>e. floorFor looseningConfig (peakPnlPercent (snd e))) ?es =
      [Some 5, Some 3, Some 3]"
    using arg_cong [OF run, of "map (\<lambda>r. fst (snd r))"] by (simp add: comp_def)
  have stored: "map (\<lambda>e. trailingFloorPercent (snd e)) ?es = [Some 5, Some 5, Some 5]"
    using arg_cong [OF run, of "map (\<lambda>r. fst (snd (snd r)))"] by (simp add: comp_def)
  have acts: "map fst ?es = [PartialClose 5, NoAction, NoAction]"
    using arg_cong [OF run, of "map fst"] by (simp add: comp_def)
  have both: "map (\<lambda>e. (trailingFloorPercent (snd e), floorFor looseningConfig (peakPnlPercent (snd e)))) ?es =
      [(Some 5, Some 5), (Some 5, Some 3), (Some 5, Some 3)]"
    using arg_cong [OF run, of "map (\<lambda>r. (fst (snd (snd r)), fst (snd r)))"]
    by (simp add: comp_def)
  have "list_all (\<lambda>e. floorLe (trailingFloorPercent (snd e))
          (map_option stopAt
            (highestReached (trailingLevels looseningConfig) (peakPnlPercent (snd e))))) ?es =
      list_all (\<lambda>r. floorLe (fst r) (snd r))
        (map (\<lambda>e. (trailingFloorPercent (snd e), floorFor looseningConfig (peakPnlPercent (snd e)))) ?es)"
    by (simp add: list_all_iff floorFor_def)
  then have notAll: "\<not> list_all (\<lambda>e. floorLe (trailingFloorPercent (snd e))
          (map_option stopAt
            (highestReached (trailingLevels looseningConfig) (peakPnlPercent (snd e))))) ?es"
    unfolding both by simp
  have notMono: "\<not> floorsNonDecreasing
      (map (\<lambda>e. floorFor looseningConfig (peakPnlPercent (snd e))) ?es)"
    unfolding eff by simp
  have notStops: "\<not> stopAtMonotone (trailingLevels looseningConfig)"
    by (simp add: stopAtMonotone_def trailingLevels_def looseningConfig_def)
  have none: "trailingFloorPercent examplePosition = None"
    by (simp add: examplePosition_def)
  have pnl: "pnlPercent examplePosition (1100 / 7) = 4"
    by (simp add: pnlPercent_def examplePosition_def)
  from looseningConfig_valid none eff notMono stored notAll pnl acts notStops show ?thesis
    by (intro conjI)
qed

text \<open>
  Claim C5, amended. For every configuration, every position and every sequence of
  prices, the floor that is recorded for the position is non-decreasing over the
  evaluations while the position remains open: once set it never reverts to a looser
  value. The floor in effect at an evaluation, which the engine compares the pnl with,
  is the stopAt of the highest level whose trigger the peak has reached: the highest
  reached level is a level of the configuration whose trigger is at most the peak and
  at least every reached trigger, there is none exactly when the peak is below every
  trigger, and TrailingStopClose is the action exactly when the pnl is above the
  stop-loss threshold and at most that stopAt. Where the stopAt values of the trailing
  levels do not fall as the triggers rise, the floor in effect is non-decreasing over
  the evaluations as well, and for a position whose recorded floor is not above the one
  of its peak (a new position has none) the recorded floor is never above the floor in
  effect, so that a pnl above the stop-loss threshold that is at most the recorded
  floor closes the position. The levels (3, 1), (6, 3), (10, 6) of the strategy have
  monotone stopAt values: the floor is 6 from a peak of 10, 3 from 6, 1 from 3 and
  there is none below 3. With them, a peak of 7 and a pnl of 3 give TrailingStopClose
  at the floor 3 of the level (6, 3); the position opened at 100 with leverage 7 and
  evaluated at 150, 200 and 1000 / 7 reaches the peak 7 at the second price, where the
  partial close records the floor 3, and is closed by the trailing stop at the third.
\<close>

theorem trailing_floor_never_loosens:
  "floorsNonDecreasing (trailingFloorPercent pos #
     map (\<lambda>e. trailingFloorPercent (snd e)) (evaluations cfg ctx pos prices)) \<and>
   (stopAtMonotone (trailingLevels cfg) \<longrightarrow>
      floorsNonDecreasing (floorFor cfg (peakPnlPercent pos) #
        map (\<lambda>e. floorFor cfg (peakPnlPercent (snd e))) (evaluations cfg ctx pos prices))) \<and>
   (stopAtMonotone (trailingLevels cfg) \<and>
    floorLe (trailingFloorPercent pos) (floorFor cfg (peakPnlPercent pos)) \<longrightarrow>
      list_all (\<lambda>e. floorLe (trailingFloorPercent (snd e))
          (map_option stopAt (highestReached (trailingLevels cfg) (peakPnlPercent (snd e)))))
        (evaluations cfg ctx pos prices) \<and>
      (trailingFloorPercent pos = Some f \<and>
       stopLossThreshold cfg (p_leverage pos) < pnlPercent pos price \<and>
       pnlPercent pos price \<le> f \<longrightarrow>
         evaluate cfg ctx pos price = TrailingStopClose)) \<and>
   (highestReached levels peak = None \<longleftrightarrow> (\<forall>l \<in> set levels. peak < trigger l)) \<and>
   (highestReached levels peak = Some h \<longrightarrow>
      h \<in> set levels \<and> trigger h \<le> peak \<and>
      (\<forall>l \<in> set levels. trigger l \<le> peak \<longrightarrow> trigger l \<le> trigger h)) \<and>
   (evaluate cfg ctx pos price = TrailingStopClose \<longleftrightarrow>
      stopLossThreshold cfg (p_leverage pos) < pnlPercent pos price \<and>
      (\<exists>l. highestReached (trailingLevels cfg)
             (max (peakPnlPercent pos) (pnlPercent pos price)) = Some l \<and>
           pnlPercent pos price \<le> stopAt l)) \<and>
   fst (hd (evaluations cfg ctx pos (price # prices))) = evaluate cfg ctx pos price \<and>
   stopAtMonotone (trailingLevels (getAlphaBetaStrategy m)) \<and>
   floorFor (getAlphaBetaStrategy m) peak =
     (if 10 \<le> peak then Some 6 else if 6 \<le> peak then Some 3
      else if 3 \<le> peak then Some 1 else None) \<and>
   (peakPnlPercent pos = 7 \<and> pnlPercent pos price = 3 \<longrightarrow>
      evaluate (getAlphaBetaStrategy m) ctx pos price = TrailingStopClose \<and>
      floorInEffect (getAlphaBetaStrategy m) pos price = Some 3 \<and>
      highestReached (trailingLevels (getAlphaBetaStrategy m))
        (max (peakPnlPercent pos) (pnlPercent pos price)) = Some \<lparr> trigger = 6, stopAt = 3 \<rparr>) \<and>
   map (\<lambda>e. (fst e, trailingFloorPercent (snd e), peakPnlPercent (snd e)))
     (evaluations (getAlphaBetaStrategy 10) exampleContext examplePosition
        [150, 200, 1000 / 7, 300]) =
     [(NoAction, None, 7 / 2), (PartialClose 5, Some 3, 7), (TrailingStopClose, Some 3, 7)]"
proof -
  have a: "floorsNonDecreasing (trailingFloorPercent pos #
     map (\<lambda>e. trailingFloorPercent (snd e)) (evaluations cfg ctx pos prices))"
    by (rule evaluations_floors)
  have b: "stopAtMonotone (trailingLevels cfg) \<longrightarrow>
      floorsNonDecreasing (floorFor cfg (peakPnlPercent pos) #
        map (\<lambda>e. floorFor cfg (peakPnlPercent (snd e))) (evaluations cfg ctx pos prices))"
    by (simp add: evaluations_peaks)
  have c: "stopAtMonotone (trailingLevels cfg) \<and>
    floorLe (trailingFloorPercent pos) (floorFor cfg (peakPnlPercent pos)) \<longrightarrow>
      list_all (\<lambda>e. floorLe (trailingFloorPercent (snd e))
          (map_option stopAt (highestReached (trailingLevels cfg) (peakPnlPercent (snd e)))))
        (evaluations cfg ctx pos prices) \<and>
      (trailingFloorPercent pos = Some f \<and>
       stopLossThreshold cfg (p_leverage pos) < pnlPercent pos price \<and>
       pnlPercent pos price \<le> f \<longrightarrow>
         evaluate cfg ctx pos price = TrailingStopClose)"
  proof (intro impI conjI)
    assume h: "stopAtMonotone (trailingLevels cfg) \<and>
      floorLe (trailingFloorPercent pos) (floorFor cfg (peakPnlPercent pos))"
    show "list_all (\<lambda>e. floorLe (trailingFloorPercent (snd e))
          (map_option stopAt (highestReached (trailingLevels cfg) (peakPnlPercent (snd e)))))
        (evaluations cfg ctx pos prices)"
      using evaluations_below [OF conjunct1 [OF h] conjunct2 [OF h], of ctx prices]
      by (simp add: floorFor_def)
    assume g: "trailingFloorPercent pos = Some f \<and>
       stopLossThreshold cfg (p_leverage pos) < pnlPercent pos price \<and>
       pnlPercent pos price \<le> f"
    show "evaluate cfg ctx pos price = TrailingStopClose"
      by (rule recorded_floor_closes [OF conjunct1 [OF h] conjunct2 [OF h] conjunct1 [OF g]
            conjunct1 [OF conjunct2 [OF g]] conjunct2 [OF conjunct2 [OF g]]])
  qed
  have d: "highestReached levels peak = None \<longleftrightarrow> (\<forall>l \<in> set levels. peak < trigger l)"
    by (rule highestReached_None)
  have e: "highestReached levels peak = Some h \<longrightarrow>
      h \<in> set levels \<and> trigger h \<le> peak \<and>
      (\<forall>l \<in> set levels. trigger l \<le> peak \<longrightarrow> trigger l \<le> trigger h)"
    using highestReached_Some [of levels peak h] by blast
  have f: "evaluate cfg ctx pos price = TrailingStopClose \<longleftrightarrow>
      stopLossThreshold cfg (p_leverage pos) < pnlPercent pos price \<and>
      (\<exists>l. highestReached (trailingLevels cfg)
             (max (peakPnlPercent pos) (pnlPercent pos price)) = Some l \<and>
           pnlPercent pos price \<le> stopAt l)"
    by (auto simp: evaluate_TrailingStopClose floorInEffect_def floorFor_def)
  have g: "fst (hd (evaluations cfg ctx pos (price # prices))) = evaluate cfg ctx pos price"
    by (rule evaluations_first)
  have h: "stopAtMonotone (trailingLevels (getAlphaBetaStrategy m))"
    by (rule alphaBeta_stopAtMonotone)
  have i: "floorFor (getAlphaBetaStrategy m) peak =
     (if 10 \<le> peak then Some 6 else if 6 \<le> peak then Some 3
      else if 3 \<le> peak then Some 1 else None)"
    by (rule alphaBeta_floorFor)
  have j: "peakPnlPercent pos = 7 \<and> pnlPercent pos price = 3 \<longrightarrow>
      evaluate (getAlphaBetaStrategy m) ctx pos price = TrailingStopClose \<and>
      floorInEffect (getAlphaBetaStrategy m) pos price = Some 3 \<and>
      highestReached (trailingLevels (getAlphaBetaStrategy m))
        (max (peakPnlPercent pos) (pnlPercent pos price)) = Some \<lparr> trigger = 6, stopAt = 3 \<rparr>"
    using trailing_example [of pos price m ctx] by (simp add: alphaBeta_highestReached)
  note k = alphaBeta_run
  from a b c d e f g h i j k show ?thesis by (intro conjI)
qed

theorem trailing_floor_never_loosens_witness:
  "stopAtMonotone (trailingLevels (getAlphaBetaStrategy 10)) \<and>
   floorLe (trailingFloorPercent examplePosition)
     (floorFor (getAlphaBetaStrategy 10) (peakPnlPercent examplePosition)) \<and>
   length (evaluations (getAlphaBetaStrategy 10) exampleContext examplePosition
     [150, 200, 1000 / 7, 300]) = 3 \<and>
   list_all (\<lambda>e. floorLe (trailingFloorPercent (snd e))
       (map_option stopAt
         (highestReached (trailingLevels (getAlphaBetaStrategy 10)) (peakPnlPercent (snd e)))))
     (evaluations (getAlphaBetaStrategy 10) exampleContext examplePosition
        [150, 200, 1000 / 7, 300]) \<and>
   floorsNonDecreasing (floorFor (getAlphaBetaStrategy 10) (peakPnlPercent examplePosition) #
     map (\<lambda>e. floorFor (getAlphaBetaStrategy 10) (peakPnlPercent (snd e)))
       (evaluations (getAlphaBetaStrategy 10) exampleContext examplePosition
          [150, 200, 1000 / 7, 300])) \<and>
   highestReached (trailingLevels (getAlphaBetaStrategy 10)) 7 = Some \<lparr> trigger = 6, stopAt = 3 \<rparr> \<and>
   \<lparr> trigger = 6, stopAt = 3 \<rparr> \<in> set (trailingLevels (getAlphaBetaStrategy 10)) \<and>
   list_all (\<lambda>l. trigger l \<le> 7 \<longrightarrow> trigger l \<le> 6) (trailingLevels (getAlphaBetaStrategy 10)) \<and>
   highestReached (trailingLevels (getAlphaBetaStrategy 10)) 2 = None \<and>
   list_all (\<lambda>l. 2 < trigger l) (trailingLevels (getAlphaBetaStrategy 10)) \<and>
   peakPnlPercent (examplePosition\<lparr> peakPnlPercent := 7 \<rparr>) = 7 \<and>
   pnlPercent (examplePosition\<lparr> peakPnlPercent := 7 \<rparr>) (1000 / 7) = 3 \<and>
   evaluate (getAlphaBetaStrategy 10) exampleContext
     (examplePosition\<lparr> peakPnlPercent := 7 \<rparr>) (1000 / 7) = TrailingStopClose \<and>
   floorInEffect (getAlphaBetaStrategy 10)
     (examplePosition\<lparr> peakPnlPercent := 7 \<rparr>) (1000 / 7) = Some 3 \<and>
   floorLe (trailingFloorPercent (examplePosition\<lparr> peakPnlPercent := 7, trailingFloorPercent := Some 3 \<rparr>))
     (floorFor (getAlphaBetaStrategy 10)
        (peakPnlPercent (examplePosition\<lparr> peakPnlPercent := 7, trailingFloorPercent := Some 3 \<rparr>))) \<and>
   stopLossThreshold (getAlphaBetaStrategy 10)
     (p_leverage (examplePosition\<lparr> peakPnlPercent := 7, trailingFloorPercent := Some 3 \<rparr>)) <
     pnlPercent (examplePosition\<lparr> peakPnlPercent := 7, trailingFloorPercent := Some 3 \<rparr>) (1000 / 7) \<and>
   pnlPercent (examplePosition\<lparr> peakPnlPercent := 7, trailingFloorPercent := Some 3 \<rparr>) (1000 / 7) \<le> 3 \<and>
   evaluate (getAlphaBetaStrategy 10) exampleContext
     (examplePosition\<lparr> peakPnlPercent := 7, trailingFloorPercent := Some 3 \<rparr>) (1000 / 7) =
     TrailingStopClose"
proof -
  let ?cfg = "getAlphaBetaStrategy 10"
  let ?prices = "[150, 200, 1000 / 7, 300 :: real]"
  let ?es = "evaluations ?cfg exampleContext examplePosition ?prices"
  let ?p7 = "examplePosition\<lparr> peakPnlPercent := 7 \<rparr>"
  let ?p73 = "examplePosition\<lparr> peakPnlPercent := 7, trailingFloorPercent := Some 3 \<rparr>"
  let ?l = "\<lparr> trigger = 6, stopAt = 3 \<rparr> :: TrailingLevel"
  note run = trailing_floor_never_loosens
    [where pos = examplePosition and cfg = ?cfg and ctx = exampleContext and prices = ?prices
       and levels = "trailingLevels ?cfg" and peak = 7 and h = ?l and price = 150 and m = 10
       and f = 3]
  note low = trailing_floor_never_loosens
    [where pos = ?p7 and cfg = ?cfg and ctx = exampleContext and prices = "[]"
       and levels = "trailingLevels ?cfg" and peak = 2 and h = ?l and price = "1000 / 7"
       and m = 10 and f = 3]
  note rec = trailing_floor_never_loosens
    [where pos = ?p73 and cfg = ?cfg and ctx = exampleContext and prices = "[]"
       and levels = "trailingLevels ?cfg" and peak = 2 and h = ?l and price = "1000 / 7"
       and m = 10 and f = 3]
  have mono: "stopAtMonotone (trailingLevels ?cfg)"
    by (simp add: stopAtMonotone_def trailingLevels_def getAlphaBetaStrategy_def)
  have le: "floorLe (trailingFloorPercent examplePosition) (floorFor ?cfg (peakPnlPercent examplePosition))"
    by (simp add: examplePosition_def)
  have len: "length ?es = 3"
    using arg_cong [OF alphaBeta_run, of length] by simp
  have stored: "list_all (\<lambda>e. floorLe (trailingFloorPercent (snd e))
       (map_option stopAt (highestReached (trailingLevels ?cfg) (peakPnlPercent (snd e))))) ?es"
    by (rule run [THEN conjunct2, THEN conjunct2, THEN conjunct1, THEN mp, OF conjI [OF mono le],
        THEN conjunct1])
  have eff: "floorsNonDecreasing (floorFor ?cfg (peakPnlPercent examplePosition) #
     map (\<lambda>e. floorFor ?cfg (peakPnlPercent (snd e))) ?es)"
    by (rule run [THEN conjunct2, THEN conjunct1, THEN mp, OF mono])
  have hr: "highestReached (trailingLevels ?cfg) 7 = Some ?l"
    by (simp add: trailingLevels_def getAlphaBetaStrategy_def)
  note top = run [THEN conjunct2, THEN conjunct2, THEN conjunct2, THEN conjunct2, THEN conjunct1,
      THEN mp, OF hr]
  have mem: "?l \<in> set (trailingLevels ?cfg)"
    by (rule top [THEN conjunct1])
  have maxi: "list_all (\<lambda>l. trigger l \<le> 7 \<longrightarrow> trigger l \<le> 6) (trailingLevels ?cfg)"
    using top [THEN conjunct2, THEN conjunct2] by (simp add: list_all_iff)
  have none: "highestReached (trailingLevels ?cfg) 2 = None"
    by (simp add: trailingLevels_def getAlphaBetaStrategy_def)
  have below: "list_all (\<lambda>l. 2 < trigger l) (trailingLevels ?cfg)"
    using low [THEN conjunct2, THEN conjunct2, THEN conjunct2, THEN conjunct1, THEN iffD1, OF none]
    by (simp add: list_all_iff)
  have pk: "peakPnlPercent ?p7 = 7"
    by simp
  have pn: "pnlPercent ?p7 (1000 / 7) = 3"
    by (simp add: pnlPercent_def examplePosition_def)
  note ex = low [THEN conjunct2, THEN conjunct2, THEN conjunct2, THEN conjunct2, THEN conjunct2,
      THEN conjunct2, THEN conjunct2, THEN conjunct2, THEN conjunct2, THEN conjunct1,
      THEN mp, OF conjI [OF pk pn]]
  have ev: "evaluate ?cfg exampleContext ?p7 (1000 / 7) = TrailingStopClose"
    by (rule ex [THEN conjunct1])
  have fl: "floorInEffect ?cfg ?p7 (1000 / 7) = Some 3"
    by (rule ex [THEN conjunct2, THEN conjunct1])
  have le3: "floorLe (trailingFloorPercent ?p73) (floorFor ?cfg (peakPnlPercent ?p73))"
    by (simp add: floorFor_def trailingLevels_def getAlphaBetaStrategy_def)
  have f3: "trailingFloorPercent ?p73 = Some 3"
    by simp
  have pn3: "pnlPercent ?p73 (1000 / 7) = 3"
    by (simp add: pnlPercent_def examplePosition_def)
  have th3: "stopLossThreshold ?cfg (p_leverage ?p73) < pnlPercent ?p73 (1000 / 7)"
    unfolding pn3 by (simp add: stopLossThreshold_def getAlphaBetaStrategy_def)
  have at3: "pnlPercent ?p73 (1000 / 7) \<le> 3"
    unfolding pn3 by simp
  have ev3: "evaluate ?cfg exampleContext ?p73 (1000 / 7) = TrailingStopClose"
    by (rule rec [THEN conjunct2, THEN conjunct2, THEN conjunct1, THEN mp, OF conjI [OF mono le3],
        THEN conjunct2, THEN mp, OF conjI [OF f3 conjI [OF th3 at3]]])
  from mono le len stored eff hr mem maxi none below pk pn ev fl le3 th3 at3 ev3 show ?thesis
    by (intro conjI)
qed

section \<open>Replaying an action\<close>












subsection \<open>Three deliveries of one action\<close>












end
